theory Spec2Isabelle
  imports Complex_Main "HOL-Library.Word"
begin

text \<open>
  A model of \<open>main.ts\<close>, the GUI test recorder: the resolver of the Playwright
  command, the session history kept in \<open>tests/history.json\<close>, and the recorder and
  replay flows. A JavaScript string is the list of its UTF-16 code units.
\<close>

section \<open>Strings\<close>

text \<open>
  \<open>str\<close> turns a literal of this text into a JavaScript string. \<open>decimal\<close> is
  the decimal numeral of a natural number, as a template literal writes
  \<open>Date.now()\<close> or \<open>entries.length\<close>; \<open>join\<close> is \<open>Array.prototype.join\<close>
  on strings.
\<close>

type_synonym jstring = "16 word list"

definition str :: "string \<Rightarrow> jstring" where
  "str s = map (\<lambda>c. of_nat (of_char c)) s"

definition is_digit :: "16 word \<Rightarrow> bool" where
  "is_digit c = (48 \<le> c \<and> c \<le> 57)"

definition digits_val :: "jstring \<Rightarrow> nat" where
  "digits_val ds = foldl (\<lambda>a c. 10 * a + (unat c - 48)) 0 ds"

function digit_list :: "nat \<Rightarrow> nat list" where
  "digit_list n = (if n < 10 then [n] else digit_list (n div 10) @ [n mod 10])"
  by pat_completeness auto
termination
  by (relation "measure id") auto

declare digit_list.simps [simp del]

definition digit_char :: "nat \<Rightarrow> 16 word" where
  "digit_char d = of_nat (48 + d)"

definition decimal :: "nat \<Rightarrow> jstring" where
  "decimal n = map digit_char (digit_list n)"

fun join :: "jstring \<Rightarrow> jstring list \<Rightarrow> jstring" where
  "join sep [] = []"
| "join sep [x] = x"
| "join sep (x # y # ys) = x @ sep @ join sep (y # ys)"

section \<open>Numbers and values\<close>

text \<open>
  A number is \<open>NaN\<close>, an infinity or a finite binary64 value, kept as the rational
  it is equal to. The two zeros are one value here: the program writes a number into
  text, compares it and uses it as an index, and none of these tells \<open>-0\<close> from
  \<open>0\<close>. \<open>jsval\<close> is a value that JSON text can denote; an object lists its
  properties in the order \<open>JSON.stringify\<close> visits them.
\<close>

datatype jsnum = NaN | PosInf | NegInf | Fin rat

datatype jsval =
    JNull
  | JBool bool
  | JNum jsnum
  | JStr jstring
  | JArr "jsval list"
  | JObj "(jstring \<times> jsval) list"

subsection \<open>The Number value of a rational\<close>

text \<open>
  \<open>binary64 q\<close> is the number a literal or an operation of exact value \<open>q\<close>
  gives: \<open>q\<close> rounded to the nearest value with 53 significant bits at the binary
  exponent of \<open>q\<close> (from \<open>-1022\<close>, where the values lose bits and end in zero), a
  tie to the one with an even last bit, and an infinity from \<open>2^1024\<close> on.
\<close>

fun bit_length :: "nat \<Rightarrow> nat" where
  "bit_length n = (if n = 0 then 0 else Suc (bit_length (n div 2)))"

declare bit_length.simps [simp del]

definition floor_log2 :: "rat \<Rightarrow> int" where
  "floor_log2 a =
     (case quotient_of a of
        (n, d) \<Rightarrow>
          (let e = int (bit_length (nat n)) - int (bit_length (nat d))
           in if 2 powi e \<le> a then e else e - 1))"

definition round_even :: "rat \<Rightarrow> int" where
  "round_even x =
     (let f = \<lfloor>x\<rfloor>; r = x - of_int f
      in if r < 1 / 2 then f
         else if 1 / 2 < r then f + 1
         else if even f then f else f + 1)"

definition binary64 :: "rat \<Rightarrow> jsnum" where
  "binary64 q =
     (if q = 0 then Fin 0
      else
        (let a = \<bar>q\<bar>;
             e = max (floor_log2 a) (- 1022);
             u = 2 powi (e - 52);
             v = of_int (round_even (a / u)) * u
         in if 2 powi 1024 \<le> v then (if q < 0 then NegInf else PosInf)
            else Fin (if q < 0 then - v else v)))"

subsection \<open>Number to string\<close>

text \<open>
  \<open>Number::toString\<close> in radix 10: the fewest decimal digits \<open>s\<close> (\<open>k\<close> of
  them) and the position \<open>n\<close> of the decimal point for which \<open>s * 10^(n - k)\<close>
  is a literal of the number, the nearest such \<open>s\<close> when there are several; then
  the digits laid out as plain digits, as a fraction or with an exponent. Seventeen
  digits are enough for every binary64 value, so \<open>shortest\<close> stops there.
\<close>

fun leading_zeros :: "nat \<Rightarrow> rat \<Rightarrow> nat" where
  "leading_zeros 0 x = 0"
| "leading_zeros (Suc f) x = (if 1 \<le> x * 10 then 0 else Suc (leading_zeros f (x * 10)))"

definition point_position :: "rat \<Rightarrow> int" where
  "point_position x =
     (if 1 \<le> x then int (length (digit_list (nat \<lfloor>x\<rfloor>)))
      else - int (leading_zeros (nat (snd (quotient_of x))) x))"

fun shortest :: "nat \<Rightarrow> rat \<Rightarrow> int \<Rightarrow> nat \<Rightarrow> int \<times> nat" where
  "shortest 0 x n k = (round_even (x / 10 powi (n - int k)), k)"
| "shortest (Suc f) x n k =
     (let sc = 10 powi (n - int k);
          s = round_even (x / sc);
          t = (if of_int s * sc \<le> x then s + 1 else s - 1)
      in if binary64 (of_int s * sc) = Fin x then (s, k)
         else if binary64 (of_int t * sc) = Fin x then (t, k)
         else shortest f x n (Suc k))"

definition strip_zeros :: "nat list \<Rightarrow> nat list" where
  "strip_zeros ds = rev (dropWhile (\<lambda>d. d = 0) (rev ds))"

definition signed_decimal :: "int \<Rightarrow> jstring" where
  "signed_decimal i = (if i < 0 then str ''-'' else str ''+'') @ decimal (nat \<bar>i\<bar>)"

definition format_digits :: "nat list \<Rightarrow> int \<Rightarrow> jstring" where
  "format_digits s n =
     (let k = int (length s); ds = map digit_char s in
      if k \<le> n \<and> n \<le> 21 then ds @ replicate (nat (n - k)) 48
      else if 0 < n \<and> n \<le> 21 then take (nat n) ds @ str ''.'' @ drop (nat n) ds
      else if -6 < n \<and> n \<le> 0 then str ''0.'' @ replicate (nat (- n)) 48 @ ds
      else if k = 1 then ds @ str ''e'' @ signed_decimal (n - 1)
      else take 1 ds @ str ''.'' @ drop 1 ds @ str ''e'' @ signed_decimal (n - 1))"

definition Number_toString :: "jsnum \<Rightarrow> jstring" where
  "Number_toString x =
     (case x of
        NaN \<Rightarrow> str ''NaN''
      | PosInf \<Rightarrow> str ''Infinity''
      | NegInf \<Rightarrow> str ''-Infinity''
      | Fin q \<Rightarrow>
          if q = 0 then str ''0''
          else (case shortest 16 \<bar>q\<bar> (point_position \<bar>q\<bar>) 1 of
                  (s, k) \<Rightarrow>
                    (let full = digit_list (nat s)
                     in (if q < 0 then str ''-'' else [])
                        @ format_digits (strip_zeros full)
                            (point_position \<bar>q\<bar> + int (length full) - int k))))"

subsection \<open>JSON.stringify with an indent of two spaces\<close>

text \<open>
  \<open>QuoteJSONString\<close> escapes the quote, the backslash and the control characters,
  and writes a surrogate that has no partner as a backslash, \<open>u\<close> and four
  hexadecimal digits; every other code unit stands for itself. \<open>SerializeJSONProperty\<close> takes
  the current indentation; \<open>JSON_stringify v\<close> is \<open>JSON.stringify(v, null, 2)\<close>.
\<close>

definition hex_digit :: "nat \<Rightarrow> 16 word" where
  "hex_digit d = (if d < 10 then of_nat (48 + d) else of_nat (87 + d))"

definition UnicodeEscape :: "16 word \<Rightarrow> jstring" where
  "UnicodeEscape c =
     (let n = unat c in
      [92, 117] @ [hex_digit (n div 4096), hex_digit (n div 256 mod 16),
                     hex_digit (n div 16 mod 16), hex_digit (n mod 16)])"

definition is_lead :: "16 word \<Rightarrow> bool" where
  "is_lead c = (0xD800 \<le> c \<and> c \<le> 0xDBFF)"

definition is_trail :: "16 word \<Rightarrow> bool" where
  "is_trail c = (0xDC00 \<le> c \<and> c \<le> 0xDFFF)"

definition quote_unit :: "16 word \<Rightarrow> jstring" where
  "quote_unit c =
     (if c = 8 then [92, 98]
      else if c = 9 then [92, 116]
      else if c = 10 then [92, 110]
      else if c = 12 then [92, 102]
      else if c = 13 then [92, 114]
      else if c = 34 then [92, 34]
      else if c = 92 then [92, 92]
      else if c < 32 \<or> is_lead c \<or> is_trail c then UnicodeEscape c
      else [c])"

fun quote_units :: "jstring \<Rightarrow> jstring" where
  "quote_units [] = []"
| "quote_units [c] = quote_unit c"
| "quote_units (c # d # cs) =
     (if is_lead c \<and> is_trail d then c # d # quote_units cs
      else quote_unit c @ quote_units (d # cs))"

definition QuoteJSONString :: "jstring \<Rightarrow> jstring" where
  "QuoteJSONString s = [34] @ quote_units s @ [34]"

fun SerializeJSONProperty :: "jstring \<Rightarrow> jsval \<Rightarrow> jstring" where
  "SerializeJSONProperty ind JNull = str ''null''"
| "SerializeJSONProperty ind (JBool b) = (if b then str ''true'' else str ''false'')"
| "SerializeJSONProperty ind (JNum x) =
     (case x of Fin q \<Rightarrow> Number_toString x | _ \<Rightarrow> str ''null'')"
| "SerializeJSONProperty ind (JStr s) = QuoteJSONString s"
| "SerializeJSONProperty ind (JArr vs) =
     (if vs = [] then str ''[]''
      else str ''['' @ [10] @ (ind @ str ''  '')
           @ join (str '','' @ [10] @ ind @ str ''  '')
               (map (SerializeJSONProperty (ind @ str ''  '')) vs)
           @ [10] @ ind @ str '']'')"
| "SerializeJSONProperty ind (JObj ps) =
     (if ps = [] then str ''{}''
      else str ''{'' @ [10] @ (ind @ str ''  '')
           @ join (str '','' @ [10] @ ind @ str ''  '')
               (map (\<lambda>(k, v). QuoteJSONString k @ str '': ''
                               @ SerializeJSONProperty (ind @ str ''  '') v) ps)
           @ [10] @ ind @ str ''}'')"

definition JSON_stringify :: "jsval \<Rightarrow> jstring" where
  "JSON_stringify v = SerializeJSONProperty [] v"

subsection \<open>JSON.parse\<close>

text \<open>
  The text is cut into tokens by a machine that reads one code unit at a time
  (\<open>lex\<close>), and the tokens are read by a machine with a stack of the arrays and
  objects that are still open (\<open>parse_tokens\<close>). A number token carries the exact
  value of its literal, which becomes a number by \<open>binary64\<close>. \<open>None\<close> is the
  SyntaxError that \<open>JSON.parse\<close> throws.
\<close>

datatype token =
    TLBrack | TRBrack | TLBrace | TRBrace | TColon | TComma
  | TString jstring | TNumber rat | TTrue | TFalse | TNull

datatype lstate =
    LIdle
  | LStr jstring
  | LEsc jstring
  | LHex jstring "nat list"
  | LNum jstring
  | LWord jstring

definition is_json_ws :: "16 word \<Rightarrow> bool" where
  "is_json_ws c = (c = 9 \<or> c = 10 \<or> c = 13 \<or> c = 32)"

definition is_num_char :: "16 word \<Rightarrow> bool" where
  "is_num_char c = (is_digit c \<or> c = 43 \<or> c = 45 \<or> c = 46 \<or> c = 69 \<or> c = 101)"

definition is_lower :: "16 word \<Rightarrow> bool" where
  "is_lower c = (97 \<le> c \<and> c \<le> 122)"

definition hex_val :: "16 word \<Rightarrow> nat option" where
  "hex_val c =
     (if 48 \<le> c \<and> c \<le> 57 then Some (unat c - 48)
      else if 97 \<le> c \<and> c \<le> 102 then Some (unat c - 87)
      else if 65 \<le> c \<and> c \<le> 70 then Some (unat c - 55)
      else None)"

definition unescape :: "16 word \<Rightarrow> 16 word option" where
  "unescape c =
     (if c = 34 then Some 34
      else if c = 92 then Some 92
      else if c = 47 then Some 47
      else if c = 98 then Some 8
      else if c = 102 then Some 12
      else if c = 110 then Some 10
      else if c = 114 then Some 13
      else if c = 116 then Some 9
      else None)"

definition split_decimal :: "jstring \<Rightarrow> jstring \<times> bool \<times> jstring \<times> jstring" where
  "split_decimal r =
     (let ip = takeWhile is_digit r; r1 = dropWhile is_digit r in
      case r1 of
        [] \<Rightarrow> (ip, False, [], [])
      | c # r2 \<Rightarrow>
          if c = 46 then (ip, True, takeWhile is_digit r2, dropWhile is_digit r2)
          else (ip, False, [], r1))"

definition signed_digits :: "int \<Rightarrow> jstring \<Rightarrow> int option" where
  "signed_digits sg ds =
     (if ds \<noteq> [] \<and> list_all is_digit ds then Some (sg * int (digits_val ds)) else None)"

definition exponent_part :: "jstring \<Rightarrow> int option" where
  "exponent_part r =
     (case r of
        [] \<Rightarrow> Some 0
      | c # ds \<Rightarrow>
          if c = 101 \<or> c = 69 then
            (case ds of
               [] \<Rightarrow> None
             | s # ds' \<Rightarrow>
                 if s = 43 then signed_digits 1 ds'
                 else if s = 45 then signed_digits (- 1) ds'
                 else signed_digits 1 ds)
          else None)"

definition decimal_value :: "jstring \<Rightarrow> jstring \<Rightarrow> int \<Rightarrow> rat" where
  "decimal_value ip fp ex =
     of_nat (digits_val (ip @ fp)) * 10 powi (ex - int (length fp))"

definition number_value :: "jstring \<Rightarrow> rat option" where
  "number_value n =
     (let neg = (n \<noteq> [] \<and> hd n = 45);
          r = (if neg then tl n else n)
      in case split_decimal r of
        (ip, dot, fp, r2) \<Rightarrow>
          if (ip = [48] \<or> (ip \<noteq> [] \<and> hd ip \<noteq> 48)) \<and> (if dot then fp \<noteq> [] else True) then
            (case exponent_part r2 of
               None \<Rightarrow> None
             | Some ex \<Rightarrow>
                 Some ((if neg then - 1 else 1) * decimal_value ip fp ex))
          else None)"

definition word_token :: "jstring \<Rightarrow> token option" where
  "word_token w =
     (if w = str ''true'' then Some TTrue
      else if w = str ''false'' then Some TFalse
      else if w = str ''null'' then Some TNull
      else None)"

definition lex_idle :: "16 word \<Rightarrow> (token list \<times> lstate) option" where
  "lex_idle c =
     (if is_json_ws c then Some ([], LIdle)
      else if c = 91 then Some ([TLBrack], LIdle)
      else if c = 93 then Some ([TRBrack], LIdle)
      else if c = 123 then Some ([TLBrace], LIdle)
      else if c = 125 then Some ([TRBrace], LIdle)
      else if c = 58 then Some ([TColon], LIdle)
      else if c = 44 then Some ([TComma], LIdle)
      else if c = 34 then Some ([], LStr [])
      else if c = 45 \<or> is_digit c then Some ([], LNum [c])
      else if is_lower c then Some ([], LWord [c])
      else None)"

definition after_token :: "token option \<Rightarrow> 16 word \<Rightarrow> (token list \<times> lstate) option" where
  "after_token t c =
     (case t of
        None \<Rightarrow> None
      | Some tok \<Rightarrow>
          (case lex_idle c of
             None \<Rightarrow> None
           | Some (ts, st) \<Rightarrow> Some (tok # ts, st)))"

fun lex_char :: "lstate \<Rightarrow> 16 word \<Rightarrow> (token list \<times> lstate) option" where
  "lex_char LIdle c = lex_idle c"
| "lex_char (LStr s) c =
     (if c = 34 then Some ([TString s], LIdle)
      else if c = 92 then Some ([], LEsc s)
      else if c < 32 then None
      else Some ([], LStr (s @ [c])))"
| "lex_char (LEsc s) c =
     (if c = 117 then Some ([], LHex s [])
      else (case unescape c of
              None \<Rightarrow> None
            | Some d \<Rightarrow> Some ([], LStr (s @ [d]))))"
| "lex_char (LHex s ds) c =
     (case hex_val c of
        None \<Rightarrow> None
      | Some v \<Rightarrow>
          if length ds = 3
          then Some ([], LStr (s @ [of_nat (foldl (\<lambda>a d. 16 * a + d) 0 (ds @ [v]))]))
          else Some ([], LHex s (ds @ [v])))"
| "lex_char (LNum n) c =
     (if is_num_char c then Some ([], LNum (n @ [c]))
      else after_token (map_option TNumber (number_value n)) c)"
| "lex_char (LWord w) c =
     (if is_lower c then Some ([], LWord (w @ [c]))
      else after_token (word_token w) c)"

definition lex_end :: "lstate \<Rightarrow> token list option" where
  "lex_end st =
     (case st of
        LIdle \<Rightarrow> Some []
      | LNum n \<Rightarrow> map_option (\<lambda>q. [TNumber q]) (number_value n)
      | LWord w \<Rightarrow> map_option (\<lambda>t. [t]) (word_token w)
      | _ \<Rightarrow> None)"

fun lex :: "lstate \<Rightarrow> jstring \<Rightarrow> token list option" where
  "lex st [] = lex_end st"
| "lex st (c # cs) =
     (case lex_char st c of
        None \<Rightarrow> None
      | Some (ts, st') \<Rightarrow>
          (case lex st' cs of
             None \<Rightarrow> None
           | Some us \<Rightarrow> Some (ts @ us)))"

text \<open>Property order of an ordinary object: array indices ascending, then the other
  keys in creation order; defining a key again replaces its value in place.\<close>

definition is_array_index :: "jstring \<Rightarrow> bool" where
  "is_array_index k =
     (k \<noteq> [] \<and> list_all is_digit k \<and> (k = [48] \<or> hd k \<noteq> 48) \<and> digits_val k < 4294967295)"

definition index_before :: "nat \<Rightarrow> jstring \<times> jsval \<Rightarrow> bool" where
  "index_before i p = (is_array_index (fst p) \<and> digits_val (fst p) < i)"

definition CreateDataProperty ::
  "(jstring \<times> jsval) list \<Rightarrow> jstring \<Rightarrow> jsval \<Rightarrow> (jstring \<times> jsval) list" where
  "CreateDataProperty ps k v =
     (if k \<in> set (map fst ps) then map (\<lambda>p. if fst p = k then (k, v) else p) ps
      else if is_array_index k
      then takeWhile (index_before (digits_val k)) ps @ [(k, v)]
           @ dropWhile (index_before (digits_val k)) ps
      else ps @ [(k, v)])"

datatype frame =
    FArr "jsval list"
  | FObj "(jstring \<times> jsval) list"
  | FKey "(jstring \<times> jsval) list" jstring

datatype pstate =
    PValue "frame list"
  | PFirst "frame list"
  | PKeyFirst "frame list"
  | PKey "frame list"
  | PColon "frame list"
  | PAfter "frame list"
  | PDone jsval

fun deliver :: "jsval \<Rightarrow> frame list \<Rightarrow> pstate option" where
  "deliver v [] = Some (PDone v)"
| "deliver v (FArr vs # fs) = Some (PAfter (FArr (vs @ [v]) # fs))"
| "deliver v (FKey ps k # fs) = Some (PAfter (FObj (CreateDataProperty ps k v) # fs))"
| "deliver v (FObj ps # fs) = None"

fun open_value :: "frame list \<Rightarrow> token \<Rightarrow> pstate option" where
  "open_value fs TLBrack = Some (PFirst (FArr [] # fs))"
| "open_value fs TLBrace = Some (PKeyFirst (FObj [] # fs))"
| "open_value fs (TString s) = deliver (JStr s) fs"
| "open_value fs (TNumber q) = deliver (JNum (binary64 q)) fs"
| "open_value fs TTrue = deliver (JBool True) fs"
| "open_value fs TFalse = deliver (JBool False) fs"
| "open_value fs TNull = deliver JNull fs"
| "open_value fs _ = None"

definition close_array :: "frame list \<Rightarrow> pstate option" where
  "close_array fs = (case fs of FArr vs # fs' \<Rightarrow> deliver (JArr vs) fs' | _ \<Rightarrow> None)"

definition close_object :: "frame list \<Rightarrow> pstate option" where
  "close_object fs = (case fs of FObj ps # fs' \<Rightarrow> deliver (JObj ps) fs' | _ \<Rightarrow> None)"

definition key_token :: "frame list \<Rightarrow> token \<Rightarrow> pstate option" where
  "key_token fs t =
     (case t of
        TString k \<Rightarrow>
          (case fs of FObj ps # fs' \<Rightarrow> Some (PColon (FKey ps k # fs')) | _ \<Rightarrow> None)
      | _ \<Rightarrow> None)"

definition parse_step :: "pstate \<Rightarrow> token \<Rightarrow> pstate option" where
  "parse_step st t =
     (case st of
        PValue fs \<Rightarrow> open_value fs t
      | PFirst fs \<Rightarrow> if t = TRBrack then close_array fs else open_value fs t
      | PKeyFirst fs \<Rightarrow> if t = TRBrace then close_object fs else key_token fs t
      | PKey fs \<Rightarrow> key_token fs t
      | PColon fs \<Rightarrow> if t = TColon then Some (PValue fs) else None
      | PAfter fs \<Rightarrow>
          (case fs of
             FArr vs # fs' \<Rightarrow>
               if t = TComma then Some (PValue fs)
               else if t = TRBrack then close_array fs else None
           | FObj ps # fs' \<Rightarrow>
               if t = TComma then Some (PKey fs)
               else if t = TRBrace then close_object fs else None
           | _ \<Rightarrow> None)
      | PDone v \<Rightarrow> None)"

fun parse_tokens :: "pstate \<Rightarrow> token list \<Rightarrow> jsval option" where
  "parse_tokens st [] = (case st of PDone v \<Rightarrow> Some v | _ \<Rightarrow> None)"
| "parse_tokens st (t # ts) =
     (case parse_step st t of
        None \<Rightarrow> None
      | Some st' \<Rightarrow> parse_tokens st' ts)"

definition JSON_parse :: "jstring \<Rightarrow> jsval option" where
  "JSON_parse txt =
     (case lex LIdle txt of
        None \<Rightarrow> None
      | Some ts \<Rightarrow> parse_tokens (PValue []) ts)"

section \<open>The program's surroundings\<close>

text \<open>
  What \<open>main.ts\<close> reads from and does to the outside: the environment variables, the
  operating system, the permissions Deno runs it with, the files, the processes it
  starts and what it asks the user.

  \<open>files\<close> tells what is at a path, the path taken as the program writes it: a text
  file, a directory, a file that may be neither read nor written (\<open>NoAccess\<close>) or a
  directory that may not be entered (\<open>Locked\<close>). A file is known by the text it holds,
  and a directory that may be entered may be written to. The directories above a path
  are the parts of the path that end before a \<open>/\<close>; the system goes through them
  before it reaches the path.

  A started process is known by its exit status, which \<open>proc\<close> gives for the
  \<open>k\<close>-th process started, its command and its arguments (\<open>None\<close>: the process
  could not be started); what a process writes is left out. \<open>trace\<close> records, in
  order, each probe of \<open>whichOk\<close> (\<open>Probe\<close>), each prompt (\<open>Ask\<close>, and
  \<open>AskNumber\<close> with the default and the bounds given to the prompt), each
  \<open>spawn()\<close> of \<open>run\<close> (\<open>Spawn\<close>) and each \<open>await\<close> of such processes
  (\<open>Wait\<close>, with their number). Console output is left out.

  An action of the program takes the world and gives back a value or the error thrown,
  and the world it leaves. The errors are \<open>Error\<close> with its message, TypeError,
  SyntaxError, the classes of \<open>Deno.errors\<close> that the file system gives,
  \<open>OSError\<close> for a process that could not be started, and \<open>Unanswered\<close>, which is
  no exception: it stands for a prompt that does not return because the user never gives
  an answer it accepts. No \<open>catch\<close> of the program encloses a prompt.
\<close>

datatype node = Text jstring | Directory | NoAccess | Locked

datatype event =
    Probe jstring
  | Ask jstring
  | AskNumber jstring int int int
  | Spawn jstring "jstring list"
  | Wait nat

record world =
  env :: "jstring \<Rightarrow> jstring option"
  isWindows :: bool
  allow_read :: bool
  allow_write :: bool
  files :: "jstring \<Rightarrow> node option"
  proc :: "nat \<Rightarrow> jstring \<Rightarrow> jstring list \<Rightarrow> nat option"
  trace :: "event list"

datatype error =
    Error jstring
  | TypeError
  | SyntaxError
  | NotFound
  | NotADirectory
  | IsADirectory
  | AlreadyExists
  | PermissionDenied
  | NotCapable
  | OSError
  | Unanswered

type_synonym 'a io = "world \<Rightarrow> (error + 'a) \<times> world"

definition return :: "'a \<Rightarrow> 'a io" where
  "return x w = (Inr x, w)"

definition throw :: "error \<Rightarrow> 'a io" where
  "throw e w = (Inl e, w)"

definition bind_io :: "'a io \<Rightarrow> ('a \<Rightarrow> 'b io) \<Rightarrow> 'b io" where
  "bind_io m f w =
     (case m w of
        (Inl e, w') \<Rightarrow> (Inl e, w')
      | (Inr x, w') \<Rightarrow> f x w')"

definition catch :: "'a io \<Rightarrow> (error \<Rightarrow> 'a io) \<Rightarrow> 'a io" where
  "catch m h w =
     (case m w of
        (Inl e, w') \<Rightarrow> h e w'
      | (Inr x, w') \<Rightarrow> (Inr x, w'))"

definition reads :: "(world \<Rightarrow> 'a) \<Rightarrow> 'a io" where
  "reads f w = (Inr (f w), w)"

definition emit :: "event \<Rightarrow> unit io" where
  "emit ev w = (Inr (), w\<lparr>trace := trace w @ [ev]\<rparr>)"

subsection \<open>Files\<close>

text \<open>
  \<open>parents p\<close> lists the directories above \<open>p\<close>, outermost first. \<open>walk\<close> goes
  through them: a missing one gives NotFound, a file in the place of one
  NotADirectory, a locked one PermissionDenied. \<open>lookup\<close> is what the system finds
  at a path; the empty path names nothing.
\<close>

fun dirs_above :: "jstring \<Rightarrow> jstring \<Rightarrow> jstring list" where
  "dirs_above pre [] = []"
| "dirs_above pre (c # cs) =
     (if c = 47 \<and> pre \<noteq> [] then [pre] else []) @ dirs_above (pre @ [c]) cs"

definition parents :: "jstring \<Rightarrow> jstring list" where
  "parents p = dirs_above [] p"

fun walk :: "(jstring \<Rightarrow> node option) \<Rightarrow> jstring list \<Rightarrow> error option" where
  "walk fs [] = None"
| "walk fs (d # ds) =
     (case fs d of
        None \<Rightarrow> Some NotFound
      | Some Directory \<Rightarrow> walk fs ds
      | Some Locked \<Rightarrow> Some PermissionDenied
      | Some _ \<Rightarrow> Some NotADirectory)"

definition lookup :: "(jstring \<Rightarrow> node option) \<Rightarrow> jstring \<Rightarrow> error + node" where
  "lookup fs p =
     (if p = [] then Inl NotFound
      else (case walk fs (parents p) of
              Some e \<Rightarrow> Inl e
            | None \<Rightarrow> (case fs p of None \<Rightarrow> Inl NotFound | Some n \<Rightarrow> Inr n)))"

text \<open>
  The operations of Deno. Each asks for its permission first (NotCapable without it, as
  Deno 2 names the error). \<open>Deno.stat\<close> gives what \<open>lookup\<close> finds; there are no
  symbolic links, so \<open>Deno.lstat\<close> is the same. \<open>Deno.readTextFile\<close> gives the text of
  a text file. \<open>Deno.writeTextFile\<close> puts a text file at a free path or over a text
  file, in a directory that is there. \<open>Deno.mkdir\<close> with \<open>recursive\<close> makes the
  directory and those above it that are missing; a new directory is empty.
\<close>

definition Deno_stat :: "jstring \<Rightarrow> node io" where
  "Deno_stat p w =
     (if \<not> allow_read w then (Inl NotCapable, w) else (lookup (files w) p, w))"

definition readTextFile :: "jstring \<Rightarrow> jstring io" where
  "readTextFile p w =
     (if \<not> allow_read w then (Inl NotCapable, w)
      else (case lookup (files w) p of
              Inl e \<Rightarrow> (Inl e, w)
            | Inr (Text txt) \<Rightarrow> (Inr txt, w)
            | Inr NoAccess \<Rightarrow> (Inl PermissionDenied, w)
            | Inr _ \<Rightarrow> (Inl IsADirectory, w)))"

definition writeTextFile :: "jstring \<Rightarrow> jstring \<Rightarrow> unit io" where
  "writeTextFile p txt w =
     (if \<not> allow_write w then (Inl NotCapable, w)
      else if p = [] then (Inl NotFound, w)
      else (case walk (files w) (parents p) of
              Some e \<Rightarrow> (Inl e, w)
            | None \<Rightarrow>
                (case files w p of
                   Some Directory \<Rightarrow> (Inl IsADirectory, w)
                 | Some Locked \<Rightarrow> (Inl IsADirectory, w)
                 | Some NoAccess \<Rightarrow> (Inl PermissionDenied, w)
                 | _ \<Rightarrow> (Inr (), w\<lparr>files := (files w)(p \<mapsto> Text txt)\<rparr>))))"

definition new_dir :: "jstring \<Rightarrow> (jstring \<Rightarrow> node option) \<Rightarrow> jstring \<Rightarrow> node option" where
  "new_dir d fs = (\<lambda>p. if p = d then Some Directory else if d \<in> set (parents p) then None else fs p)"

fun mkdirs :: "(jstring \<Rightarrow> node option) \<Rightarrow> jstring list \<Rightarrow> error + (jstring \<Rightarrow> node option)" where
  "mkdirs fs [] = Inr fs"
| "mkdirs fs (d # ds) =
     (case fs d of
        None \<Rightarrow> mkdirs (new_dir d fs) ds
      | Some Directory \<Rightarrow> mkdirs fs ds
      | Some Locked \<Rightarrow> if ds = [] then Inr fs else Inl PermissionDenied
      | Some _ \<Rightarrow> Inl (if ds = [] then AlreadyExists else NotADirectory))"

definition Deno_mkdir :: "jstring \<Rightarrow> unit io" where
  "Deno_mkdir p w =
     (if \<not> allow_write w then (Inl NotCapable, w)
      else if p = [] then (Inl NotFound, w)
      else (case mkdirs (files w) (parents p @ [p]) of
              Inl e \<Rightarrow> (Inl e, w)
            | Inr fs \<Rightarrow> (Inr (), w\<lparr>files := fs\<rparr>)))"

text \<open>
  \<open>exists\<close> and \<open>ensureDir\<close> of the standard library (\<open>std@0.224.0/fs\<close>), as
  \<open>main.ts\<close> calls them, without options. \<open>exists\<close> is false on NotFound, true on
  PermissionDenied when the program holds the read permission, and throws every other
  error of \<open>Deno.stat\<close> on. \<open>ensureDir\<close> accepts a directory, makes a missing one
  and throws on anything else.
\<close>

definition exists :: "jstring \<Rightarrow> bool io" where
  "exists p =
     catch (bind_io (Deno_stat p) (\<lambda>_. return True))
       (\<lambda>err.
          if err = NotFound then return False
          else if err = PermissionDenied then
            bind_io (reads allow_read) (\<lambda>granted.
            if granted then return True else throw err)
          else throw err)"

definition isDirectory :: "node \<Rightarrow> bool" where
  "isDirectory n = (n = Directory \<or> n = Locked)"

definition getFileInfoType :: "node \<Rightarrow> jstring" where
  "getFileInfoType n = (if isDirectory n then str ''dir'' else str ''file'')"

definition expected_dir :: "node \<Rightarrow> error" where
  "expected_dir n =
     Error (str ''Ensure path exists, expected '' @ [39] @ str ''dir'' @ [39]
            @ str '', got '' @ [39] @ getFileInfoType n @ [39])"

definition ensureDir :: "jstring \<Rightarrow> unit io" where
  "ensureDir dir =
     bind_io
       (catch
          (bind_io (Deno_stat dir) (\<lambda>fileInfo.
           if \<not> isDirectory fileInfo then throw (expected_dir fileInfo) else return True))
          (\<lambda>err. if err \<noteq> NotFound then throw err else return False))
       (\<lambda>there.
        if there then return ()
        else
          catch (Deno_mkdir dir)
            (\<lambda>err.
               if err \<noteq> AlreadyExists then throw err
               else
                 bind_io (Deno_stat dir) (\<lambda>fileInfo.
                 if \<not> isDirectory fileInfo then throw (expected_dir fileInfo)
                 else return ())))"

subsection \<open>Prompts\<close>

text \<open>
  The prompts of the library cliffy. \<open>Input\<close>, \<open>Select\<close> and \<open>Confirm\<close> take
  the value the prompt hands back (the user's answer, or the default when the user gives
  none). The \<open>Number\<close> prompt is given \<open>min\<close> and \<open>max\<close>: it refuses a
  submitted number outside them and goes on asking, so it takes what the user submits,
  in order (an empty submission as the default), and hands back the first number within
  the bounds.
\<close>

definition Input_prompt :: "jstring \<Rightarrow> jstring \<Rightarrow> jstring io" where
  "Input_prompt message answer = bind_io (emit (Ask message)) (\<lambda>_. return answer)"

definition Select_prompt :: "jstring \<Rightarrow> jstring \<Rightarrow> jstring io" where
  "Select_prompt message answer = bind_io (emit (Ask message)) (\<lambda>_. return answer)"

definition Confirm_prompt :: "jstring \<Rightarrow> bool \<Rightarrow> bool io" where
  "Confirm_prompt message answer = bind_io (emit (Ask message)) (\<lambda>_. return answer)"

definition NumberPrompt_prompt :: "jstring \<Rightarrow> int \<Rightarrow> int \<Rightarrow> int \<Rightarrow> int list \<Rightarrow> int io" where
  "NumberPrompt_prompt message dflt lo hi submitted =
     bind_io (emit (AskNumber message dflt lo hi)) (\<lambda>_.
     case find (\<lambda>n. lo \<le> n \<and> n \<le> hi) submitted of
       Some n \<Rightarrow> return n
     | None \<Rightarrow> throw Unanswered)"

subsection \<open>Processes\<close>

text \<open>\<open>launched\<close> counts the processes started so far, probes and commands
  alike: it numbers the next process for \<open>proc\<close>.\<close>

fun is_launch :: "event \<Rightarrow> bool" where
  "is_launch (Probe c) = True"
| "is_launch (Spawn c a) = True"
| "is_launch _ = False"

definition launched :: "world \<Rightarrow> nat" where
  "launched w = length (filter is_launch (trace w))"

text \<open>
  \<open>run\<close> is an async function: a call runs up to its first \<open>await\<close>, so it has
  spawned the process when it returns its promise (\<open>run_start\<close>); the promise settles
  with the process's status. A job is that promise, as the value it settles to.
\<close>

type_synonym job = "error + unit"

definition run_start :: "jstring \<Rightarrow> jstring list \<Rightarrow> job io" where
  "run_start cmd args w =
     (let job = (case proc w (launched w) cmd args of
                   None \<Rightarrow> Inl OSError
                 | Some code \<Rightarrow>
                     if code \<noteq> 0
                     then Inl (Error (str ''Command failed: '' @ cmd @ str '' ''
                                      @ join (str '' '') args))
                     else Inr ())
      in (Inr job, w\<lparr>trace := trace w @ [Spawn cmd args]\<rparr>))"

definition await :: "job \<Rightarrow> unit io" where
  "await j w = (j, w\<lparr>trace := trace w @ [Wait 1]\<rparr>)"

definition run :: "jstring \<Rightarrow> jstring list \<Rightarrow> unit io" where
  "run cmd args = bind_io (run_start cmd args) await"

text \<open>\<open>Promise.all\<close> rejects with the rejection that comes first. A process that
  could not be started has rejected before the join begins; the rejections for a
  nonzero status come in the order the processes end, and among them the first of the
  list stands for the first in time (in \<open>replayTest\<close> they are all the same
  error).\<close>

definition Promise_all :: "job list \<Rightarrow> unit io" where
  "Promise_all jobs w =
     ((if Inl OSError \<in> set jobs then Inl OSError
       else (case filter isl jobs of [] \<Rightarrow> Inr () | j # _ \<Rightarrow> j)),
      w\<lparr>trace := trace w @ [Wait (length jobs)]\<rparr>)"

text \<open>\<open>whichOk\<close> runs the command with \<open>--version\<close> and waits for it: true
  on exit status 0, false on any other status and when the process cannot be
  started.\<close>

definition whichOk :: "jstring \<Rightarrow> bool io" where
  "whichOk cmd w =
     (Inr (proc w (launched w) cmd [str ''--version''] = Some 0),
      w\<lparr>trace := trace w @ [Probe cmd]\<rparr>)"

section \<open>main.ts\<close>

text \<open>The program's constants and functions, under their names. The constants that
  \<open>main.ts\<close> computes from the environment when it is loaded are functions of the
  world here.\<close>

record HistoryEntry =
  entry_id :: jstring
  url :: jstring
  device :: jstring
  createdAt :: jstring
  feedback :: jstring
  scriptPath :: jstring
  tracePath :: jstring

text \<open>The object an entry is at run time: its properties in the order the object
  literal of \<open>recordNewTest\<close> creates them.\<close>

definition HistoryEntry_obj :: "HistoryEntry \<Rightarrow> jsval" where
  "HistoryEntry_obj e =
     JObj [(str ''id'', JStr (entry_id e)),
           (str ''url'', JStr (url e)),
           (str ''device'', JStr (device e)),
           (str ''createdAt'', JStr (createdAt e)),
           (str ''feedback'', JStr (feedback e)),
           (str ''scriptPath'', JStr (scriptPath e)),
           (str ''tracePath'', JStr (tracePath e))]"

definition TESTS_DIR :: jstring where
  "TESTS_DIR = str ''tests''"

definition SESSIONS_DIR :: jstring where
  "SESSIONS_DIR = TESTS_DIR @ str ''/sessions''"

definition HISTORY_PATH :: jstring where
  "HISTORY_PATH = TESTS_DIR @ str ''/history.json''"

definition defaultNPX :: "world \<Rightarrow> jstring" where
  "defaultNPX w =
     (case env w (str ''NPX_BIN'') of
        Some b \<Rightarrow> b
      | None \<Rightarrow> if isWindows w then str ''npx.cmd'' else str ''npx'')"

definition defaultPlaywright :: "world \<Rightarrow> jstring" where
  "defaultPlaywright w =
     (case env w (str ''PLAYWRIGHT_BIN'') of
        Some b \<Rightarrow> b
      | None \<Rightarrow> if isWindows w then str ''playwright.cmd'' else str ''playwright'')"

definition defaultNode :: "world \<Rightarrow> jstring" where
  "defaultNode w =
     (case env w (str ''NODE_BIN'') of
        Some b \<Rightarrow> b
      | None \<Rightarrow> if isWindows w then str ''node.exe'' else str ''node'')"

subsection \<open>resolvePlaywright\<close>

datatype pw_mode = global | npx

record PwInvoker =
  mode :: pw_mode
  cmd :: jstring
  wrap :: "jstring list \<Rightarrow> jstring list"

definition tryGlobal :: "PwInvoker option io" where
  "tryGlobal =
     bind_io (reads defaultPlaywright) (\<lambda>bin.
     bind_io (whichOk bin) (\<lambda>ok.
     if ok then return (Some \<lparr>mode = global, cmd = bin, wrap = (\<lambda>a. a)\<rparr>)
     else return None))"

definition tryNpx :: "PwInvoker option io" where
  "tryNpx =
     bind_io (reads defaultNPX) (\<lambda>bin.
     bind_io (whichOk bin) (\<lambda>ok.
     if ok then return (Some \<lparr>mode = npx, cmd = bin, wrap = (\<lambda>a. str ''playwright'' # a)\<rparr>)
     else return None))"

definition resolvePlaywright :: "PwInvoker io" where
  "resolvePlaywright =
     bind_io (reads (\<lambda>w. env w (str ''PLAYWRIGHT_MODE''))) (\<lambda>m.
     if m = Some (str ''global'') then
       bind_io tryGlobal (\<lambda>g.
       case g of
         None \<Rightarrow> throw (Error (str
           ''PLAYWRIGHT_MODE=global but `playwright` not found. Install it or set PLAYWRIGHT_BIN.''))
       | Some pw \<Rightarrow> return pw)
     else if m = Some (str ''npx'') then
       bind_io tryNpx (\<lambda>n.
       case n of
         None \<Rightarrow> throw (Error (str ''PLAYWRIGHT_MODE=npx but `npx` not found on PATH.''))
       | Some pw \<Rightarrow> return pw)
     else
       bind_io tryGlobal (\<lambda>g.
       case g of
         Some pw \<Rightarrow> return pw
       | None \<Rightarrow>
           bind_io tryNpx (\<lambda>n.
           case n of
             Some pw \<Rightarrow> return pw
           | None \<Rightarrow> throw (Error (str
               ''Could not find Playwright (global) or npx. Install Node+npx or set env vars.'')))))"

subsection \<open>loadHistory and saveHistory\<close>

definition JSON_parse_io :: "jstring \<Rightarrow> jsval io" where
  "JSON_parse_io txt = (case JSON_parse txt of None \<Rightarrow> throw SyntaxError | Some v \<Rightarrow> return v)"

definition loadHistory :: "jsval list io" where
  "loadHistory =
     bind_io (exists HISTORY_PATH) (\<lambda>present.
     if \<not> present then return []
     else
       catch
         (bind_io (readTextFile HISTORY_PATH) (\<lambda>txt.
          bind_io (JSON_parse_io txt) (\<lambda>data.
          return (case data of JArr vs \<Rightarrow> vs | _ \<Rightarrow> []))))
         (\<lambda>e. return []))"

definition saveHistory :: "jsval list \<Rightarrow> unit io" where
  "saveHistory entries =
     bind_io (ensureDir TESTS_DIR) (\<lambda>_.
     writeTextFile HISTORY_PATH (JSON_stringify (JArr entries)))"

definition newId :: "nat \<Rightarrow> jstring" where
  "newId now = decimal now"

definition isDeviceType :: "jstring \<Rightarrow> bool" where
  "isDeviceType x = (x = str ''pc'' \<or> x = str ''mobile'')"

definition devicePreset :: "jstring \<Rightarrow> jstring" where
  "devicePreset d = (if d = str ''mobile'' then str ''iPhone 13'' else str ''Desktop Chrome'')"

subsection \<open>recordNewTest\<close>

text \<open>What one run of the recorder flow is given: the answers to its four prompts,
  and the clock as \<open>Date.now()\<close> and \<open>new Date().toISOString()\<close> read it.\<close>

record record_inputs =
  url_answer :: jstring
  device_answer :: jstring
  now_ms :: nat
  gen_answer :: bool
  feedback_answer :: jstring
  now_iso :: jstring

definition tracegen_js :: "jstring \<Rightarrow> jstring \<Rightarrow> jstring \<Rightarrow> jstring" where
  "tracegen_js preset target tracePath' =
     str ''const { chromium, devices } = require('playwright');'' @ [10]
     @ str ''      (async () => {'' @ [10]
     @ str ''        const preset = '' @ QuoteJSONString preset @ str '';'' @ [10]
     @ str ''        const url = '' @ QuoteJSONString target @ str '';'' @ [10]
     @ str ''        const dev = devices[preset];'' @ [10]
     @ str ''        const browser = await chromium.launch({ headless: false });'' @ [10]
     @ str ''        const context = await browser.newContext(dev ? { ...dev } : {});'' @ [10]
     @ str ''        await context.tracing.start({ screenshots: true, snapshots: true, sources: true });'' @ [10]
     @ str ''        const page = await context.newPage();'' @ [10]
     @ str ''        await page.goto(url, { waitUntil: 'domcontentloaded' });'' @ [10]
     @ str ''        await page.waitForTimeout(12000);'' @ [10]
     @ str ''        await context.tracing.stop({ path: '' @ QuoteJSONString tracePath' @ str '' });'' @ [10]
     @ str ''        await browser.close();'' @ [10]
     @ str ''      })().catch(e => { console.error(e); process.exit(1); });'' @ [10]
     @ str ''      ''"

definition recordNewTest :: "record_inputs \<Rightarrow> unit io" where
  "recordNewTest inp =
     bind_io resolvePlaywright (\<lambda>pw.
     bind_io (Input_prompt (str ''Enter target URL'') (url_answer inp)) (\<lambda>url.
     bind_io (Select_prompt (str ''Select device type'') (device_answer inp)) (\<lambda>rawDevice.
     if \<not> isDeviceType rawDevice
     then throw (Error (str ''Invalid device selection: '' @ rawDevice))
     else
       let device = rawDevice;
           id = newId (now_ms inp);
           sessionDir = SESSIONS_DIR @ str ''/'' @ id
       in
       bind_io (ensureDir sessionDir) (\<lambda>_.
       let scriptPath = sessionDir @ str ''/script.spec.ts'';
           tracePath = sessionDir @ str ''/trace.zip'';
           preset = devicePreset device
       in
       bind_io (run (cmd pw) (wrap pw [str ''codegen'', url, str ''--output'', scriptPath,
                                       str ''--device'', preset])) (\<lambda>_.
       bind_io (Confirm_prompt (str ''Generate a short GUI trace for replay now?'')
                  (gen_answer inp)) (\<lambda>gen.
       bind_io (if gen then
                  let traceGenJs = sessionDir @ str ''/tracegen.js'' in
                  bind_io (writeTextFile traceGenJs (tracegen_js preset url tracePath)) (\<lambda>_.
                  bind_io (reads defaultNode) (\<lambda>node.
                  run node [traceGenJs]))
                else return ()) (\<lambda>_.
       bind_io (Input_prompt (str ''Feedback/notes (optional)'') (feedback_answer inp))
         (\<lambda>feedback.
       let entry = \<lparr>entry_id = id, url = url, device = device, createdAt = now_iso inp,
                    feedback = feedback, scriptPath = scriptPath, tracePath = tracePath\<rparr>
       in
       bind_io loadHistory (\<lambda>history.
       bind_io (saveHistory (history @ [HistoryEntry_obj entry])) (\<lambda>_.
       bind_io (exists tracePath) (\<lambda>_.
       return ())))))))))))"

subsection \<open>replayTest\<close>

text \<open>
  \<open>Number(pickStr)\<close>: the string-to-number conversion, by its grammar; the value
  of the literal becomes a number by \<open>binary64\<close>.
\<close>

definition is_str_ws :: "16 word \<Rightarrow> bool" where
  "is_str_ws c =
     (c = 9 \<or> c = 10 \<or> c = 11 \<or> c = 12 \<or> c = 13 \<or> c = 32 \<or> c = 0xA0 \<or> c = 0x1680
      \<or> (0x2000 \<le> c \<and> c \<le> 0x200A) \<or> c = 0x2028 \<or> c = 0x2029 \<or> c = 0x202F
      \<or> c = 0x205F \<or> c = 0x3000 \<or> c = 0xFEFF)"

definition trim :: "jstring \<Rightarrow> jstring" where
  "trim s = rev (dropWhile is_str_ws (rev (dropWhile is_str_ws s)))"

definition radix_val :: "nat \<Rightarrow> jstring \<Rightarrow> nat option" where
  "radix_val b ds =
     (if ds \<noteq> [] \<and> list_all (\<lambda>c. case hex_val c of None \<Rightarrow> False | Some d \<Rightarrow> d < b) ds
      then Some (foldl (\<lambda>a c. b * a + the (hex_val c)) 0 ds)
      else None)"

definition non_decimal :: "jstring \<Rightarrow> nat option option" where
  "non_decimal t =
     (case t of
        z # x # ds \<Rightarrow>
          if z \<noteq> 48 then None
          else if x = 120 \<or> x = 88 then Some (radix_val 16 ds)
          else if x = 111 \<or> x = 79 then Some (radix_val 8 ds)
          else if x = 98 \<or> x = 66 then Some (radix_val 2 ds)
          else None
      | _ \<Rightarrow> None)"

definition str_decimal :: "jstring \<Rightarrow> jsnum" where
  "str_decimal t =
     (let neg = (t \<noteq> [] \<and> hd t = 45);
          r = (if t \<noteq> [] \<and> (hd t = 45 \<or> hd t = 43) then tl t else t)
      in if r = str ''Infinity'' then (if neg then NegInf else PosInf)
         else (case split_decimal r of
                 (ip, dot, fp, r2) \<Rightarrow>
                   if ip \<noteq> [] \<or> fp \<noteq> [] then
                     (case exponent_part r2 of
                        None \<Rightarrow> NaN
                      | Some ex \<Rightarrow>
                          binary64 ((if neg then - 1 else 1) * decimal_value ip fp ex))
                   else NaN))"

definition Number :: "jstring \<Rightarrow> jsnum" where
  "Number s =
     (let t = trim s in
      if t = [] then Fin 0
      else (case non_decimal t of
              Some (Some n) \<Rightarrow> binary64 (of_nat n)
            | Some None \<Rightarrow> NaN
            | None \<Rightarrow> str_decimal t))"

definition num_less :: "jsnum \<Rightarrow> jsnum \<Rightarrow> bool" where
  "num_less a b =
     (case (a, b) of
        (Fin p, Fin q) \<Rightarrow> p < q
      | (NegInf, Fin q) \<Rightarrow> True
      | (NegInf, PosInf) \<Rightarrow> True
      | (Fin p, PosInf) \<Rightarrow> True
      | _ \<Rightarrow> False)"

definition Math_min :: "jsnum \<Rightarrow> jsnum \<Rightarrow> jsnum" where
  "Math_min a b = (if a = NaN \<or> b = NaN then NaN else if num_less b a then b else a)"

definition Math_max :: "jsnum \<Rightarrow> jsnum \<Rightarrow> jsnum" where
  "Math_max a b = (if a = NaN \<or> b = NaN then NaN else if num_less a b then b else a)"

definition minus_one :: "jsnum \<Rightarrow> jsnum" where
  "minus_one a = (case a of Fin q \<Rightarrow> binary64 (q - 1) | _ \<Rightarrow> a)"

text \<open>\<open>entries[idx]\<close>: the element when \<open>idx\<close> is an integer from 0 below the
  length, \<open>undefined\<close> (here \<open>None\<close>) for any other number.\<close>

definition element :: "'a list \<Rightarrow> jsnum \<Rightarrow> 'a option" where
  "element xs idx =
     (case idx of
        Fin q \<Rightarrow>
          if q = of_int \<lfloor>q\<rfloor> \<and> 0 \<le> q \<and> \<lfloor>q\<rfloor> < int (length xs)
          then Some (xs ! nat \<lfloor>q\<rfloor>) else None
      | _ \<Rightarrow> None)"

text \<open>\<open>v.k\<close> for the keys the flow reads (\<open>id\<close>, \<open>url\<close>, \<open>device\<close>,
  \<open>createdAt\<close>, \<open>tracePath\<close>; no prototype has one of them): a TypeError on
  \<open>undefined\<close> and \<open>null\<close>, the own property of an object, \<open>undefined\<close>
  otherwise.\<close>

definition read_property :: "jsval option \<Rightarrow> jstring \<Rightarrow> jsval option io" where
  "read_property v k =
     (case v of
        None \<Rightarrow> throw TypeError
      | Some JNull \<Rightarrow> throw TypeError
      | Some (JObj ps) \<Rightarrow> return (map_of ps k)
      | Some _ \<Rightarrow> return None)"

text \<open>A template literal converts each value to a string. For a value that came out
  of \<open>JSON.parse\<close> the conversion fails (TypeError) on an object with an own
  \<open>toString\<close> property, which is not callable, and on an array holding such an
  object.\<close>

fun ToString_ok :: "jsval \<Rightarrow> bool" where
  "ToString_ok (JObj ps) = (str ''toString'' \<notin> set (map fst ps))"
| "ToString_ok (JArr vs) = list_all ToString_ok vs"
| "ToString_ok _ = True"

definition in_template :: "jsval option \<Rightarrow> unit io" where
  "in_template v =
     (case v of
        None \<Rightarrow> return ()
      | Some x \<Rightarrow> if ToString_ok x then return () else throw TypeError)"

definition print_entry :: "jsval \<Rightarrow> unit io" where
  "print_entry e =
     bind_io (read_property (Some e) (str ''id'')) (\<lambda>a.
     bind_io (in_template a) (\<lambda>_.
     bind_io (read_property (Some e) (str ''url'')) (\<lambda>b.
     bind_io (in_template b) (\<lambda>_.
     bind_io (read_property (Some e) (str ''device'')) (\<lambda>c.
     bind_io (in_template c) (\<lambda>_.
     bind_io (read_property (Some e) (str ''createdAt'')) (\<lambda>d.
     in_template d)))))))"

fun forEach :: "'a list \<Rightarrow> ('a \<Rightarrow> unit io) \<Rightarrow> unit io" where
  "forEach [] f = return ()"
| "forEach (x # xs) f = bind_io (f x) (\<lambda>_. forEach xs f)"

text \<open>A value handed to Deno as a path: a string is the path; any other value
  reaches the system as the empty path, which names nothing.\<close>

definition path_of :: "jsval option \<Rightarrow> jstring" where
  "path_of v = (case v of Some (JStr p) \<Rightarrow> p | _ \<Rightarrow> [])"

text \<open>\<open>for (let i = 0; i < n; i++) jobs.push(run(...))\<close>, by the number of rounds
  left: each round starts a process and keeps its promise.\<close>

primrec push_jobs :: "nat \<Rightarrow> job io \<Rightarrow> job list \<Rightarrow> job list io" where
  "push_jobs 0 start jobs = return jobs"
| "push_jobs (Suc k) start jobs = bind_io start (\<lambda>j. push_jobs k start (jobs @ [j]))"

text \<open>What one run of the replay flow is given: the answer to the pick prompt and
  what the user submits to the viewer-count prompt.\<close>

record replay_inputs =
  pick_answer :: jstring
  viewers_submitted :: "int list"

definition replayTest :: "replay_inputs \<Rightarrow> unit io" where
  "replayTest inp =
     bind_io resolvePlaywright (\<lambda>pw.
     bind_io loadHistory (\<lambda>entries.
     if length entries = 0 then return ()
     else
       bind_io (forEach entries print_entry) (\<lambda>_.
       bind_io (Input_prompt (str ''Pick a session (1-'' @ decimal (length entries) @ str '')'')
                  (pick_answer inp)) (\<lambda>pickStr.
       let idx = minus_one (Math_max (Fin 1)
                   (Math_min (Fin (of_nat (length entries))) (Number pickStr)));
           chosen = element entries idx
       in
       bind_io (read_property chosen (str ''tracePath'')) (\<lambda>tracePath.
       bind_io (exists (path_of tracePath)) (\<lambda>present.
       if \<not> present then
         bind_io (read_property chosen (str ''id'')) (\<lambda>id.
         bind_io (in_template id) (\<lambda>_.
         in_template tracePath))
       else
         bind_io (NumberPrompt_prompt (str ''How many trace viewers to open?'') 1 1 10
                    (viewers_submitted inp)) (\<lambda>n.
         bind_io (push_jobs (nat n)
                    (run_start (cmd pw) (wrap pw [str ''show-trace'', path_of tracePath])) [])
           (\<lambda>jobs.
         Promise_all jobs))))))))"

section \<open>Notions used in the proofs\<close>

text \<open>The values whose text \<open>JSON.parse\<close> is proved to read back as they are: no
  number, and in every object distinct keys none of which is an array index; and the
  tokens of such a value as \<open>JSON.stringify\<close> writes it (a number is given none).\<close>

fun sep_tokens :: "token list list \<Rightarrow> token list" where
  "sep_tokens [] = []"
| "sep_tokens [x] = x"
| "sep_tokens (x # y # ys) = x @ TComma # sep_tokens (y # ys)"

fun tokens :: "jsval \<Rightarrow> token list" where
  "tokens JNull = [TNull]"
| "tokens (JBool b) = [if b then TTrue else TFalse]"
| "tokens (JNum x) = []"
| "tokens (JStr s) = [TString s]"
| "tokens (JArr vs) = TLBrack # sep_tokens (map tokens vs) @ [TRBrack]"
| "tokens (JObj ps) =
     TLBrace # sep_tokens (map (\<lambda>(k, v). TString k # TColon # tokens v) ps) @ [TRBrace]"

fun plain :: "jsval \<Rightarrow> bool" where
  "plain (JNum x) = False"
| "plain (JArr vs) = list_all plain vs"
| "plain (JObj ps) =
     (list_all (\<lambda>(k, v). plain v) ps \<and> distinct (map fst ps)
      \<and> list_all (\<lambda>(k, v). \<not> is_array_index k) ps)"
| "plain _ = True"

definition delimited :: "jstring \<Rightarrow> bool" where
  "delimited rest = (case rest of [] \<Rightarrow> True | c # cs \<Rightarrow> \<not> is_lower c)"

text \<open>What \<open>loadHistory\<close> comes to, as a function of the read permission, of what
  is at \<open>tests\<close> and of what is at \<open>tests/history.json\<close> (lemma
  \<open>loadHistory_eq\<close>).\<close>

definition history_of :: "world \<Rightarrow> error + jsval list" where
  "history_of w =
     (if \<not> allow_read w then Inl NotCapable
      else (case files w TESTS_DIR of
              None \<Rightarrow> Inr []
            | Some Directory \<Rightarrow>
                (case files w HISTORY_PATH of
                   Some (Text txt) \<Rightarrow>
                     Inr (case JSON_parse txt of Some (JArr vs) \<Rightarrow> vs | _ \<Rightarrow> [])
                 | _ \<Rightarrow> Inr [])
            | Some Locked \<Rightarrow> Inr []
            | Some _ \<Rightarrow> Inl NotADirectory))"

section \<open>Worlds and inputs for the examples\<close>

text \<open>Every example world grants both permissions and lets every process end with
  status 0, but for \<open>w_npx_only\<close> and \<open>w_npx_forced\<close>. \<open>w_fresh\<close> has no file at
  all; \<open>w_recorded\<close> is a working directory in which \<open>session1\<close> has been recorded
  and its trace produced; \<open>w_tests_file\<close> has a text file where the directory
  \<open>tests\<close> should be.\<close>

definition no_files :: "jstring \<Rightarrow> node option" where
  "no_files p = None"

definition w_npx_only :: world where
  "w_npx_only =
     \<lparr>env = (\<lambda>k. None), isWindows = False, allow_read = True, allow_write = True,
      files = no_files,
      proc = (\<lambda>k c a. if c = str ''npx'' then Some 0 else None), trace = []\<rparr>"

definition w_npx_forced :: world where
  "w_npx_forced =
     \<lparr>env = (\<lambda>k. if k = str ''PLAYWRIGHT_MODE'' then Some (str ''npx'') else None),
      isWindows = False, allow_read = True, allow_write = True,
      files = no_files, proc = (\<lambda>k c a. None), trace = []\<rparr>"

definition w_fresh :: world where
  "w_fresh =
     \<lparr>env = (\<lambda>k. None), isWindows = False, allow_read = True, allow_write = True,
      files = no_files, proc = (\<lambda>k c a. Some 0), trace = []\<rparr>"

definition with_history :: "node \<Rightarrow> world" where
  "with_history n = w_fresh\<lparr>files := no_files(TESTS_DIR \<mapsto> Directory, HISTORY_PATH \<mapsto> n)\<rparr>"

definition w_tests_file :: world where
  "w_tests_file = w_fresh\<lparr>files := no_files(TESTS_DIR \<mapsto> Text [])\<rparr>"

definition session1 :: HistoryEntry where
  "session1 =
     \<lparr>entry_id = str ''1753927438951'',
      url = str ''https://translate.google.com/'',
      device = str ''pc'',
      createdAt = str ''2025-07-31T02:03:58.951Z'',
      feedback = str '''',
      scriptPath = str ''tests/sessions/1753927438951/script.spec.ts'',
      tracePath = str ''tests/sessions/1753927438951/trace.zip''\<rparr>"

definition session2 :: HistoryEntry where
  "session2 =
     \<lparr>entry_id = str ''1753927499000'',
      url = str ''https://example.com'',
      device = str ''mobile'',
      createdAt = str ''2025-07-31T02:04:59.000Z'',
      feedback = str ''ok'',
      scriptPath = str ''tests/sessions/1753927499000/script.spec.ts'',
      tracePath = str ''tests/sessions/1753927499000/trace.zip''\<rparr>"

definition files_recorded :: "jstring \<Rightarrow> node option" where
  "files_recorded =
     no_files
       (TESTS_DIR \<mapsto> Directory,
        SESSIONS_DIR \<mapsto> Directory,
        str ''tests/sessions/1753927438951'' \<mapsto> Directory,
        HISTORY_PATH \<mapsto> Text (JSON_stringify (JArr [HistoryEntry_obj session1])),
        tracePath session1 \<mapsto> Text [])"

definition w_recorded :: world where
  "w_recorded = w_fresh\<lparr>files := files_recorded\<rparr>"

definition record_in :: "jstring \<Rightarrow> record_inputs" where
  "record_in d =
     \<lparr>url_answer = str ''https://translate.google.com/'', device_answer = d,
      now_ms = 1753927438951, gen_answer = False, feedback_answer = str '''',
      now_iso = str ''2025-07-31T02:03:58.951Z''\<rparr>"

definition record_again :: record_inputs where
  "record_again =
     \<lparr>url_answer = str ''https://example.com'', device_answer = str ''mobile'',
      now_ms = 1753927499000, gen_answer = False, feedback_answer = str ''ok'',
      now_iso = str ''2025-07-31T02:04:59.000Z''\<rparr>"

definition w_after_record :: world where
  "w_after_record =
     w_fresh\<lparr>files := no_files
       (TESTS_DIR \<mapsto> Directory,
        SESSIONS_DIR \<mapsto> Directory,
        str ''tests/sessions/1753927438951'' \<mapsto> Directory,
        HISTORY_PATH \<mapsto> Text (JSON_stringify (JArr [HistoryEntry_obj session1]))),
       trace :=
         [Probe (str ''playwright''),
          Ask (str ''Enter target URL''),
          Ask (str ''Select device type''),
          Spawn (str ''playwright'')
            [str ''codegen'', str ''https://translate.google.com/'', str ''--output'',
             str ''tests/sessions/1753927438951/script.spec.ts'', str ''--device'',
             str ''Desktop Chrome''],
          Wait 1,
          Ask (str ''Generate a short GUI trace for replay now?''),
          Ask (str ''Feedback/notes (optional)'')]\<rparr>"

definition w_after_second :: world where
  "w_after_second =
     w_fresh\<lparr>files := files_recorded
       (str ''tests/sessions/1753927499000'' \<mapsto> Directory,
        HISTORY_PATH \<mapsto>
          Text (JSON_stringify (JArr [HistoryEntry_obj session1, HistoryEntry_obj session2]))),
       trace :=
         [Probe (str ''playwright''),
          Ask (str ''Enter target URL''),
          Ask (str ''Select device type''),
          Spawn (str ''playwright'')
            [str ''codegen'', str ''https://example.com'', str ''--output'',
             str ''tests/sessions/1753927499000/script.spec.ts'', str ''--device'',
             str ''iPhone 13''],
          Wait 1,
          Ask (str ''Generate a short GUI trace for replay now?''),
          Ask (str ''Feedback/notes (optional)'')]\<rparr>"

definition replay_with :: "jstring \<Rightarrow> int list \<Rightarrow> replay_inputs" where
  "replay_with p ns = \<lparr>pick_answer = p, viewers_submitted = ns\<rparr>"

definition replay_in :: "jstring \<Rightarrow> int \<Rightarrow> replay_inputs" where
  "replay_in p n = replay_with p [n]"

section \<open>JSON.parse reads back what JSON.stringify writes\<close>

lemma str_Nil [simp]: "str [] = []"
  by (simp add: str_def)

lemma str_Cons [simp]: "str (c # cs) = of_nat (of_char c) # str cs"
  by (simp add: str_def)

lemma case_option_id [simp]: "(case x of None \<Rightarrow> None | Some y \<Rightarrow> Some y) = x"
  by (cases x) simp_all

declare lex.simps(2) [simp del]

lemma lex_emit:
  "lex_char st c = Some (ts, st') \<Longrightarrow> lex st (c # cs) = map_option ((@) ts) (lex st' cs)"
  by (auto simp: lex.simps(2) split: option.splits)

lemma lex_skip: "lex_char st c = Some ([], st') \<Longrightarrow> lex st (c # cs) = lex st' cs"
  by (cases "lex st' cs") (simp_all add: lex_emit)

lemma lex_ws: "list_all is_json_ws ws \<Longrightarrow> lex LIdle (ws @ rest) = lex LIdle rest"
  by (induction ws) (simp_all add: lex_idle_def lex_skip)

subsection \<open>String literals\<close>

lemma hex_digits_all: "list_all (\<lambda>d. hex_val (hex_digit d) = Some d) [0..<16]"
  by code_simp

lemma hex_val_digit: "d < 16 \<Longrightarrow> hex_val (hex_digit d) = Some d"
  using hex_digits_all by (simp add: list_all_iff)

lemma hex_compose:
  fixes n :: nat
  shows "16 * (16 * (16 * (n div 4096) + n div 256 mod 16) + n div 16 mod 16) + n mod 16 = n"
proof -
  have a: "n div 256 = n div 16 div 16"
    using div_mult2_eq [of n 16 16] by simp
  have b: "n div 4096 = n div 16 div 16 div 16"
    using div_mult2_eq [of n 256 16] a by simp
  show ?thesis
    unfolding a b by (simp only: mult_div_mod_eq)
qed

lemma lex_hex_step:
  "d < 16 \<Longrightarrow> length ds \<noteq> 3 \<Longrightarrow>
   lex (LHex acc ds) (hex_digit d # rest) = lex (LHex acc (ds @ [d])) rest"
  by (simp add: lex_skip hex_val_digit)

lemma lex_hex_last:
  "d < 16 \<Longrightarrow> length ds = 3 \<Longrightarrow>
   lex (LHex acc ds) (hex_digit d # rest)
     = lex (LStr (acc @ [of_nat (foldl (\<lambda>a d. 16 * a + d) 0 (ds @ [d]))])) rest"
  by (simp add: lex_skip hex_val_digit)

lemma lex_UnicodeEscape:
  "lex (LStr acc) (UnicodeEscape c @ rest) = lex (LStr (acc @ [c])) rest"
proof -
  define n where "n = unat c"
  have b: "n < 65536" using unsigned_less [of c, where 'a = nat] by (simp add: n_def)
  then have d1: "n div 4096 < 16" by simp
  have d2: "n div 256 mod 16 < 16" and d3: "n div 16 mod 16 < 16" and d4: "n mod 16 < 16"
    by simp_all
  have v: "foldl (\<lambda>a d. 16 * a + d) 0
             ([n div 4096, n div 256 mod 16, n div 16 mod 16] @ [n mod 16]) = n"
    using hex_compose [of n] by simp
  have c: "(of_nat n :: 16 word) = c" by (simp add: n_def)
  have "lex (LStr acc) (UnicodeEscape c @ rest)
          = lex (LHex acc []) (hex_digit (n div 4096) # hex_digit (n div 256 mod 16)
              # hex_digit (n div 16 mod 16) # hex_digit (n mod 16) # rest)"
    by (simp add: UnicodeEscape_def Let_def n_def lex_skip)
  also have "\<dots> = lex (LHex acc [n div 4096]) (hex_digit (n div 256 mod 16)
              # hex_digit (n div 16 mod 16) # hex_digit (n mod 16) # rest)"
    using lex_hex_step [OF d1, of "[]"] by simp
  also have "\<dots> = lex (LHex acc [n div 4096, n div 256 mod 16])
              (hex_digit (n div 16 mod 16) # hex_digit (n mod 16) # rest)"
    using lex_hex_step [OF d2, of "[n div 4096]"] by simp
  also have "\<dots> = lex (LHex acc [n div 4096, n div 256 mod 16, n div 16 mod 16])
              (hex_digit (n mod 16) # rest)"
    using lex_hex_step [OF d3, of "[n div 4096, n div 256 mod 16]"] by simp
  also have "\<dots> = lex (LStr (acc @ [of_nat n])) rest"
    using lex_hex_last [OF d4, of "[n div 4096, n div 256 mod 16, n div 16 mod 16]" acc rest]
    by (simp only: v) simp
  finally show ?thesis by (simp only: c)
qed

lemma lex_escape:
  "unescape x = Some c \<Longrightarrow> x \<noteq> 117 \<Longrightarrow>
   lex (LStr acc) (92 # x # rest) = lex (LStr (acc @ [c])) rest"
  by (simp add: lex_skip)

lemma lex_literal:
  "c \<noteq> 34 \<Longrightarrow> c \<noteq> 92 \<Longrightarrow> \<not> c < 32 \<Longrightarrow>
   lex (LStr acc) (c # rest) = lex (LStr (acc @ [c])) rest"
  by (simp add: lex_skip)

lemma lex_quote_unit:
  "lex (LStr acc) (quote_unit c @ rest) = lex (LStr (acc @ [c])) rest"
proof -
  consider "c = 8" | "c = 9" | "c = 10" | "c = 12" | "c = 13" | "c = 34" | "c = 92"
    | "c \<notin> {8, 9, 10, 12, 13, 34, 92}" "c < 32 \<or> is_lead c \<or> is_trail c"
    | "c \<notin> {8, 9, 10, 12, 13, 34, 92}" "\<not> (c < 32 \<or> is_lead c \<or> is_trail c)"
    by auto
  then show ?thesis
  proof cases
    case 8
    then have "quote_unit c = UnicodeEscape c" by (simp add: quote_unit_def)
    then show ?thesis by (simp add: lex_UnicodeEscape)
  next
    case 9
    then have "quote_unit c = [c]" by (simp add: quote_unit_def)
    then show ?thesis using 9 by (simp add: lex_literal)
  qed (simp_all add: quote_unit_def lex_escape unescape_def)
qed

lemma lead_literal: "is_lead c \<Longrightarrow> c \<noteq> 34 \<and> c \<noteq> 92 \<and> \<not> c < 32"
  by (auto simp: is_lead_def word_le_nat_alt word_less_nat_alt)

lemma trail_literal: "is_trail c \<Longrightarrow> c \<noteq> 34 \<and> c \<noteq> 92 \<and> \<not> c < 32"
  by (auto simp: is_trail_def word_le_nat_alt word_less_nat_alt)

lemma append_single_eta [simp]: "(@) [x] = (#) x"
  by (rule ext) simp

lemma lex_close_quote:
  "lex (LStr acc) (34 # rest) = map_option ((#) (TString acc)) (lex LIdle rest)"
  by (simp add: lex_emit)

lemma lex_quote_units:
  "lex (LStr acc) (quote_units s @ 34 # rest)
     = map_option ((#) (TString (acc @ s))) (lex LIdle rest)"
proof (induction s arbitrary: acc rule: quote_units.induct)
  case 1
  show ?case by (simp add: lex_close_quote)
next
  case (2 c)
  show ?case by (simp add: lex_quote_unit lex_close_quote)
next
  case (3 c d cs)
  show ?case
  proof (cases "is_lead c \<and> is_trail d")
    case True
    have "lex (LStr acc) (c # d # quote_units cs @ 34 # rest)
            = lex (LStr ((acc @ [c]) @ [d])) (quote_units cs @ 34 # rest)"
    proof -
      from True lead_literal [of c] have c: "c \<noteq> 34" "c \<noteq> 92" "\<not> c < 32" by simp_all
      from True trail_literal [of d] have d: "d \<noteq> 34" "d \<noteq> 92" "\<not> d < 32" by simp_all
      show ?thesis by (simp only: lex_literal [OF c] lex_literal [OF d] append_Cons)
    qed
    also have "\<dots> = map_option ((#) (TString ((acc @ [c, d]) @ cs))) (lex LIdle rest)"
      using 3(1) [OF True, of "acc @ [c, d]"] by simp
    finally show ?thesis using True by simp
  next
    case False
    have "lex (LStr acc) (quote_unit c @ quote_units (d # cs) @ 34 # rest)
            = lex (LStr (acc @ [c])) (quote_units (d # cs) @ 34 # rest)"
      by (rule lex_quote_unit)
    also have "\<dots> = map_option ((#) (TString ((acc @ [c]) @ d # cs))) (lex LIdle rest)"
      by (rule 3(2) [OF False])
    finally show ?thesis using False by auto
  qed
qed

lemma lex_open_quote: "lex LIdle (34 # rest) = lex (LStr []) rest"
  by (simp add: lex_skip lex_idle_def is_json_ws_def)

lemma lex_QuoteJSONString:
  "lex LIdle (QuoteJSONString s @ rest) = map_option ((#) (TString s)) (lex LIdle rest)"
  using lex_quote_units [of "[]" s rest]
  by (simp add: QuoteJSONString_def lex_open_quote)

subsection \<open>Literal names and punctuation\<close>

lemma lex_word_end:
  assumes "delimited rest" and "word_token w = Some t"
  shows "lex (LWord w) rest = map_option ((#) t) (lex LIdle rest)"
proof (cases rest)
  case Nil
  then show ?thesis using assms by (simp add: lex_end_def)
next
  case (Cons c cs)
  then have c: "\<not> is_lower c" using assms(1) by (simp add: delimited_def)
  show ?thesis
  proof (cases "lex_idle c")
    case None
    then show ?thesis using Cons c assms(2)
      by (simp add: lex.simps(2) after_token_def)
  next
    case (Some r)
    obtain ts st where r: "r = (ts, st)" by (cases r)
    have "lex_char (LWord w) c = Some (t # ts, st)"
      using c assms(2) Some r by (simp add: after_token_def)
    then have "lex (LWord w) (c # cs) = map_option ((@) (t # ts)) (lex st cs)"
      by (rule lex_emit)
    moreover have "lex LIdle (c # cs) = map_option ((@) ts) (lex st cs)"
      using Some r by (simp add: lex_emit)
    ultimately show ?thesis using Cons
      by (cases "lex st cs") simp_all
  qed
qed

lemma lex_null:
  "delimited rest \<Longrightarrow> lex LIdle (str ''null'' @ rest) = map_option ((#) TNull) (lex LIdle rest)"
  by (simp add: lex_skip lex_idle_def is_json_ws_def is_digit_def is_lower_def
      lex_word_end word_token_def)

lemma lex_true:
  "delimited rest \<Longrightarrow> lex LIdle (str ''true'' @ rest) = map_option ((#) TTrue) (lex LIdle rest)"
  by (simp add: lex_skip lex_idle_def is_json_ws_def is_digit_def is_lower_def
      lex_word_end word_token_def)

lemma lex_false:
  "delimited rest \<Longrightarrow> lex LIdle (str ''false'' @ rest) = map_option ((#) TFalse) (lex LIdle rest)"
  by (simp add: lex_skip lex_idle_def is_json_ws_def is_digit_def is_lower_def
      lex_word_end word_token_def)

lemma lex_punct:
  "lex LIdle (91 # rest) = map_option ((#) TLBrack) (lex LIdle rest)"
  "lex LIdle (93 # rest) = map_option ((#) TRBrack) (lex LIdle rest)"
  "lex LIdle (123 # rest) = map_option ((#) TLBrace) (lex LIdle rest)"
  "lex LIdle (125 # rest) = map_option ((#) TRBrace) (lex LIdle rest)"
  "lex LIdle (58 # rest) = map_option ((#) TColon) (lex LIdle rest)"
  "lex LIdle (44 # rest) = map_option ((#) TComma) (lex LIdle rest)"
  by (simp_all add: lex_emit lex_idle_def is_json_ws_def)

lemma lex_space [simp]: "lex LIdle (32 # rest) = lex LIdle rest" "lex LIdle (10 # rest) = lex LIdle rest"
  by (simp_all add: lex_skip lex_idle_def is_json_ws_def)

lemma delimited_simps [simp]:
  "delimited []" "delimited (10 # r)" "delimited (44 # r)" "delimited (32 # r)"
  by (simp_all add: delimited_def is_lower_def)

subsection \<open>Values\<close>

lemma lex_join:
  assumes "\<And>x r. x \<in> set xs \<Longrightarrow> delimited r \<Longrightarrow>
             lex LIdle (g x @ r) = map_option ((@) (tk x)) (lex LIdle r)"
    and "xs \<noteq> []" and "list_all is_json_ws ws" and "delimited rest"
  shows "lex LIdle (join (44 # ws) (map g xs) @ rest)
           = map_option ((@) (sep_tokens (map tk xs))) (lex LIdle rest)"
  using assms(1,2)
proof (induction xs rule: induct_list012)
  case 1
  then show ?case by simp
next
  case (2 x)
  then show ?case using assms(4) by simp
next
  case (3 x y zs)
  have "lex LIdle (join (44 # ws) (map g (x # y # zs)) @ rest)
          = lex LIdle (g x @ 44 # ws @ join (44 # ws) (map g (y # zs)) @ rest)"
    by simp
  also have "\<dots> = map_option ((@) (tk x))
                     (lex LIdle (44 # ws @ join (44 # ws) (map g (y # zs)) @ rest))"
    by (rule 3(3)) simp_all
  also have "lex LIdle (44 # ws @ join (44 # ws) (map g (y # zs)) @ rest)
               = map_option ((#) TComma) (lex LIdle (join (44 # ws) (map g (y # zs)) @ rest))"
    by (simp add: lex_punct lex_ws [OF assms(3)])
  also have "lex LIdle (join (44 # ws) (map g (y # zs)) @ rest)
               = map_option ((@) (sep_tokens (map tk (y # zs)))) (lex LIdle rest)"
    by (rule 3(2)) (use 3(3) in auto)
  finally show ?case
    by (simp add: option.map_comp comp_def)
qed

lemma ws_indent: "list_all is_json_ws ind \<Longrightarrow> list_all is_json_ws (ind @ str ''  '')"
  by (simp add: is_json_ws_def)

lemma lex_container:
  assumes "\<And>x r. x \<in> set xs \<Longrightarrow> delimited r \<Longrightarrow>
             lex LIdle (g x @ r) = map_option ((@) (tk x)) (lex LIdle r)"
    and "xs \<noteq> []" and "list_all is_json_ws ind"
  shows "lex LIdle (10 # (ind @ str ''  '')
                    @ join (str '','' @ [10] @ ind @ str ''  '') (map g xs)
                    @ [10] @ ind @ c # rest)
           = map_option ((@) (sep_tokens (map tk xs))) (lex LIdle (c # rest))"
proof -
  have w: "list_all is_json_ws (10 # ind @ str ''  '')"
    using assms(3) by (simp add: is_json_ws_def)
  have s: "str '','' @ [10] @ ind @ str ''  '' = 44 # (10 # ind @ str ''  '')"
    by simp
  have "lex LIdle (10 # (ind @ str ''  '')
                    @ join (str '','' @ [10] @ ind @ str ''  '') (map g xs)
                    @ [10] @ ind @ c # rest)
          = lex LIdle (join (44 # (10 # ind @ str ''  '')) (map g xs) @ (10 # ind @ c # rest))"
    using lex_ws [OF ws_indent [OF assms(3)]] by simp
  also have "\<dots> = map_option ((@) (sep_tokens (map tk xs))) (lex LIdle (10 # ind @ c # rest))"
    by (rule lex_join [OF assms(1) assms(2) w]) simp_all
  also have "lex LIdle (10 # ind @ c # rest) = lex LIdle (c # rest)"
    using lex_ws [OF assms(3)] by simp
  finally show ?thesis .
qed

lemma lex_value:
  "plain v \<Longrightarrow> list_all is_json_ws ind \<Longrightarrow> delimited rest \<Longrightarrow>
   lex LIdle (SerializeJSONProperty ind v @ rest) = map_option ((@) (tokens v)) (lex LIdle rest)"
proof (induction v arbitrary: ind rest)
  case JNull
  then show ?case using lex_null [of rest] by simp
next
  case (JBool b)
  then show ?case using lex_true [of rest] lex_false [of rest] by simp
next
  case (JNum x)
  then show ?case by simp
next
  case (JStr s)
  then show ?case by (simp add: lex_QuoteJSONString)
next
  case (JArr vs)
  show ?case
  proof (cases "vs = []")
    case True
    then show ?thesis
      by (cases "lex LIdle rest") (simp_all add: lex_punct)
  next
    case False
    have el: "lex LIdle (SerializeJSONProperty (ind @ str ''  '') x @ r)
                = map_option ((@) (tokens x)) (lex LIdle r)"
      if "x \<in> set vs" "delimited r" for x r
      using JArr.IH [OF that(1) _ ws_indent [OF JArr.prems(2)] that(2)] JArr.prems(1) that(1)
      by (simp add: list_all_iff)
    have "lex LIdle (SerializeJSONProperty ind (JArr vs) @ rest)
            = map_option ((#) TLBrack)
                (lex LIdle (10 # (ind @ str ''  '')
                    @ join (str '','' @ [10] @ ind @ str ''  '')
                        (map (SerializeJSONProperty (ind @ str ''  '')) vs)
                    @ [10] @ ind @ 93 # rest))"
      using False by (simp add: lex_punct)
    also have "\<dots> = map_option ((#) TLBrack)
                        (map_option ((@) (sep_tokens (map tokens vs))) (lex LIdle (93 # rest)))"
      using lex_container [of vs "SerializeJSONProperty (ind @ str ''  '')" tokens ind 93 rest,
          OF el False JArr.prems(2)]
      by simp
    finally show ?thesis
      by (cases "lex LIdle rest") (simp_all add: lex_punct)
  qed
next
  case (JObj ps)
  let ?g = "\<lambda>(k, v). QuoteJSONString k @ str '': '' @ SerializeJSONProperty (ind @ str ''  '') v"
  let ?tk = "\<lambda>(k, v). TString k # TColon # tokens v"
  show ?case
  proof (cases "ps = []")
    case True
    then show ?thesis
      by (cases "lex LIdle rest") (simp_all add: lex_punct)
  next
    case False
    have el: "lex LIdle (?g p @ r) = map_option ((@) (?tk p)) (lex LIdle r)"
      if "p \<in> set ps" "delimited r" for p r
    proof -
      obtain k x where p: "p = (k, x)" by (cases p)
      have px: "plain x" using JObj.prems(1) that(1) p by (auto simp: list_all_iff)
      have "lex LIdle (SerializeJSONProperty (ind @ str ''  '') x @ r)
              = map_option ((@) (tokens x)) (lex LIdle r)"
        using JObj.IH [of p x, OF that(1) _ px ws_indent [OF JObj.prems(2)] that(2)] p
        by simp
      then show ?thesis
        using p by (cases "lex LIdle r") (simp_all add: lex_QuoteJSONString lex_punct)
    qed
    have "lex LIdle (SerializeJSONProperty ind (JObj ps) @ rest)
            = map_option ((#) TLBrace)
                (lex LIdle (10 # (ind @ str ''  '')
                    @ join (str '','' @ [10] @ ind @ str ''  '') (map ?g ps)
                    @ [10] @ ind @ 125 # rest))"
      using False by (simp add: lex_punct)
    also have "\<dots> = map_option ((#) TLBrace)
                        (map_option ((@) (sep_tokens (map ?tk ps))) (lex LIdle (125 # rest)))"
      using lex_container [of ps ?g ?tk ind 125 rest, OF el False JObj.prems(2)]
      by simp
    finally show ?thesis
      by (cases "lex LIdle rest") (simp_all add: lex_punct)
  qed
qed

subsection \<open>Parsing the tokens of a value\<close>

lemma sep_tokens_Cons:
  "sep_tokens (x # map f xs) = x @ concat (map (\<lambda>y. TComma # f y) xs)"
  by (induction xs arbitrary: x) simp_all

lemma CreateDataProperty_fresh:
  "k \<notin> set (map fst ps) \<Longrightarrow> \<not> is_array_index k \<Longrightarrow> CreateDataProperty ps k v = ps @ [(k, v)]"
  by (simp add: CreateDataProperty_def)

lemma first_token:
  "plain v \<Longrightarrow> \<exists>t ts. tokens v = t # ts \<and> t \<noteq> TRBrack"
  by (cases v) auto

lemma parse_first:
  assumes "plain v"
  shows "parse_tokens (PFirst fs) (tokens v @ ts) = parse_tokens (PValue fs) (tokens v @ ts)"
proof -
  obtain t us where "tokens v = t # us" "t \<noteq> TRBrack"
    using first_token [OF assms] by blast
  then show ?thesis by (simp add: parse_step_def)
qed

lemma parse_elems:
  assumes "\<And>v fs ts. v \<in> set xs \<Longrightarrow>
             parse_tokens (PValue fs) (tokens v @ ts)
               = (case deliver v fs of None \<Rightarrow> None | Some st \<Rightarrow> parse_tokens st ts)"
  shows "parse_tokens (PAfter (FArr acc # fs))
           (concat (map (\<lambda>v. TComma # tokens v) xs) @ TRBrack # ts)
         = (case deliver (JArr (acc @ xs)) fs of None \<Rightarrow> None | Some st \<Rightarrow> parse_tokens st ts)"
  using assms
proof (induction xs arbitrary: acc)
  case Nil
  show ?case by (simp add: parse_step_def close_array_def)
next
  case (Cons x xs)
  have "parse_tokens (PAfter (FArr acc # fs))
          (concat (map (\<lambda>v. TComma # tokens v) (x # xs)) @ TRBrack # ts)
        = parse_tokens (PValue (FArr acc # fs))
            (tokens x @ concat (map (\<lambda>v. TComma # tokens v) xs) @ TRBrack # ts)"
    by (simp add: parse_step_def)
  also have "\<dots> = parse_tokens (PAfter (FArr (acc @ [x]) # fs))
                      (concat (map (\<lambda>v. TComma # tokens v) xs) @ TRBrack # ts)"
    using Cons.prems [of x] by simp
  also have "\<dots> = (case deliver (JArr ((acc @ [x]) @ xs)) fs of
                       None \<Rightarrow> None | Some st \<Rightarrow> parse_tokens st ts)"
    by (rule Cons.IH) (use Cons.prems in auto)
  finally show ?case by simp
qed

lemma parse_members:
  assumes "\<And>k v fs ts. (k, v) \<in> set qs \<Longrightarrow>
             parse_tokens (PValue fs) (tokens v @ ts)
               = (case deliver v fs of None \<Rightarrow> None | Some st \<Rightarrow> parse_tokens st ts)"
    and "distinct (map fst (acc @ qs))"
    and "list_all (\<lambda>(k, v). \<not> is_array_index k) qs"
  shows "parse_tokens (PAfter (FObj acc # fs))
           (concat (map (\<lambda>(k, v). TComma # TString k # TColon # tokens v) qs) @ TRBrace # ts)
         = (case deliver (JObj (acc @ qs)) fs of None \<Rightarrow> None | Some st \<Rightarrow> parse_tokens st ts)"
  using assms
proof (induction qs arbitrary: acc)
  case Nil
  show ?case by (simp add: parse_step_def close_object_def)
next
  case (Cons q qs)
  obtain k v where q: "q = (k, v)" by (cases q)
  have fresh: "k \<notin> set (map fst acc)" "\<not> is_array_index k"
    using Cons.prems(2,3) q by auto
  have "parse_tokens (PAfter (FObj acc # fs))
          (concat (map (\<lambda>(k, v). TComma # TString k # TColon # tokens v) (q # qs)) @ TRBrace # ts)
        = parse_tokens (PValue (FKey acc k # fs))
            (tokens v @ concat (map (\<lambda>(k, v). TComma # TString k # TColon # tokens v) qs)
               @ TRBrace # ts)"
    by (simp add: q parse_step_def key_token_def)
  also have "\<dots> = parse_tokens (PAfter (FObj (acc @ [(k, v)]) # fs))
                      (concat (map (\<lambda>(k, v). TComma # TString k # TColon # tokens v) qs)
                         @ TRBrace # ts)"
    using Cons.prems(1) [of k v] q by (simp add: CreateDataProperty_fresh [OF fresh])
  also have "\<dots> = (case deliver (JObj ((acc @ [(k, v)]) @ qs)) fs of
                       None \<Rightarrow> None | Some st \<Rightarrow> parse_tokens st ts)"
    by (rule Cons.IH) (use Cons.prems q in auto)
  finally show ?case by (simp add: q)
qed

lemma parse_value:
  "plain v \<Longrightarrow>
   parse_tokens (PValue fs) (tokens v @ ts)
     = (case deliver v fs of None \<Rightarrow> None | Some st \<Rightarrow> parse_tokens st ts)"
proof (induction v arbitrary: fs ts)
  case (JArr vs)
  have el: "parse_tokens (PValue fs) (tokens v @ ts)
              = (case deliver v fs of None \<Rightarrow> None | Some st \<Rightarrow> parse_tokens st ts)"
    if "v \<in> set vs" for v fs ts
    using JArr.IH [OF that] JArr.prems that by (simp add: list_all_iff)
  show ?case
  proof (cases vs)
    case Nil
    then show ?thesis by (simp add: parse_step_def close_array_def)
  next
    case (Cons x xs)
    have "parse_tokens (PValue fs) (tokens (JArr vs) @ ts)
            = parse_tokens (PFirst (FArr [] # fs))
                (tokens x @ concat (map (\<lambda>v. TComma # tokens v) xs) @ TRBrack # ts)"
      using Cons by (simp add: parse_step_def sep_tokens_Cons)
    also have "\<dots> = parse_tokens (PAfter (FArr ([] @ [x]) # fs))
                        (concat (map (\<lambda>v. TComma # tokens v) xs) @ TRBrack # ts)"
      using el [of x] Cons JArr.prems by (simp add: parse_first)
    also have "\<dots> = (case deliver (JArr (([] @ [x]) @ xs)) fs of
                         None \<Rightarrow> None | Some st \<Rightarrow> parse_tokens st ts)"
      by (rule parse_elems) (use el Cons in auto)
    finally show ?thesis using Cons by simp
  qed
next
  case (JObj ps)
  have el: "parse_tokens (PValue fs) (tokens v @ ts)
              = (case deliver v fs of None \<Rightarrow> None | Some st \<Rightarrow> parse_tokens st ts)"
    if "(k, v) \<in> set ps" for k v fs ts
    using JObj.IH [OF that] JObj.prems that by (auto simp: list_all_iff)
  show ?case
  proof (cases ps)
    case Nil
    then show ?thesis by (simp add: parse_step_def close_object_def)
  next
    case (Cons q qs)
    obtain k v where q: "q = (k, v)" by (cases q)
    have fresh: "k \<notin> set (map fst [])" "\<not> is_array_index k"
      using JObj.prems Cons q by auto
    have "parse_tokens (PValue fs) (tokens (JObj ps) @ ts)
            = parse_tokens (PValue (FKey [] k # fs))
                (tokens v @ concat (map (\<lambda>(k, v). TComma # TString k # TColon # tokens v) qs)
                   @ TRBrace # ts)"
      using Cons q by (simp add: parse_step_def key_token_def sep_tokens_Cons case_prod_unfold)
    also have "\<dots> = parse_tokens (PAfter (FObj ([] @ [(k, v)]) # fs))
                        (concat (map (\<lambda>(k, v). TComma # TString k # TColon # tokens v) qs)
                           @ TRBrace # ts)"
      using el [of k v] Cons q by (simp add: CreateDataProperty_fresh [OF fresh])
    also have "\<dots> = (case deliver (JObj (([] @ [(k, v)]) @ qs)) fs of
                         None \<Rightarrow> None | Some st \<Rightarrow> parse_tokens st ts)"
      by (rule parse_members) (use el JObj.prems Cons q in auto)
    finally show ?thesis using Cons q by simp
  qed
qed (simp_all add: parse_step_def)

lemma JSON_roundtrip: "plain v \<Longrightarrow> JSON_parse (JSON_stringify v) = Some v"
proof -
  assume p: "plain v"
  have "lex LIdle (SerializeJSONProperty [] v @ []) = map_option ((@) (tokens v)) (lex LIdle [])"
    by (rule lex_value [OF p]) simp_all
  then have l: "lex LIdle (SerializeJSONProperty [] v) = Some (tokens v)"
    by (simp add: lex_end_def)
  have "parse_tokens (PValue []) (tokens v @ []) = Some v"
    using parse_value [OF p, of "[]" "[]"] by simp
  then show ?thesis
    by (simp add: JSON_parse_def JSON_stringify_def l)
qed


declare str_Nil [simp del] str_Cons [simp del]

section \<open>The resolver\<close>

lemmas io_defs = return_def throw_def bind_io_def catch_def reads_def emit_def

lemma launched_probe [simp]: "launched (w\<lparr>trace := trace w @ [Probe c]\<rparr>) = Suc (launched w)"
  by (simp add: launched_def)

lemma defaults_trace [simp]:
  "defaultNPX (w\<lparr>trace := t\<rparr>) = defaultNPX w"
  "defaultPlaywright (w\<lparr>trace := t\<rparr>) = defaultPlaywright w"
  "defaultNode (w\<lparr>trace := t\<rparr>) = defaultNode w"
  by (simp_all add: defaultNPX_def defaultPlaywright_def defaultNode_def)

lemma tryGlobal_eq:
  "tryGlobal w =
     (Inr (if proc w (launched w) (defaultPlaywright w) [str ''--version''] = Some 0
           then Some \<lparr>mode = global, cmd = defaultPlaywright w, wrap = (\<lambda>a. a)\<rparr> else None),
      w\<lparr>trace := trace w @ [Probe (defaultPlaywright w)]\<rparr>)"
  by (simp add: tryGlobal_def io_defs whichOk_def)

lemma tryNpx_eq:
  "tryNpx w =
     (Inr (if proc w (launched w) (defaultNPX w) [str ''--version''] = Some 0
           then Some \<lparr>mode = npx, cmd = defaultNPX w, wrap = (\<lambda>a. str ''playwright'' # a)\<rparr>
           else None),
      w\<lparr>trace := trace w @ [Probe (defaultNPX w)]\<rparr>)"
  by (simp add: tryNpx_def io_defs whichOk_def)

text \<open>The resolver only probes: it leaves a world that differs by \<open>Probe\<close> events.\<close>

lemma resolvePlaywright_probes:
  "\<exists>ps. snd (resolvePlaywright w) = w\<lparr>trace := trace w @ map Probe ps\<rparr>"
proof -
  have "snd (resolvePlaywright w) = w\<lparr>trace := trace w @ [Probe (defaultPlaywright w)]\<rparr>
      \<or> snd (resolvePlaywright w) = w\<lparr>trace := trace w @ [Probe (defaultNPX w)]\<rparr>
      \<or> snd (resolvePlaywright w)
         = w\<lparr>trace := trace w @ [Probe (defaultPlaywright w), Probe (defaultNPX w)]\<rparr>"
    by (cases "env w (str ''PLAYWRIGHT_MODE'') = Some (str ''global'')";
        cases "env w (str ''PLAYWRIGHT_MODE'') = Some (str ''npx'')")
      (simp_all add: resolvePlaywright_def io_defs tryGlobal_eq tryNpx_eq)
  then consider
      "snd (resolvePlaywright w) = w\<lparr>trace := trace w @ map Probe [defaultPlaywright w]\<rparr>"
    | "snd (resolvePlaywright w) = w\<lparr>trace := trace w @ map Probe [defaultNPX w]\<rparr>"
    | "snd (resolvePlaywright w)
         = w\<lparr>trace := trace w @ map Probe [defaultPlaywright w, defaultNPX w]\<rparr>"
    by auto
  then show ?thesis by cases blast+
qed

lemma npx_not_global: "str ''npx'' \<noteq> str ''global''"
  by (simp add: str_Cons)

text \<open>
  Claim C4. With \<open>PLAYWRIGHT_MODE\<close> unset the resolver probes the \<open>playwright\<close>
  binary first and is done when that probe succeeds; only after its failure does it
  probe \<open>npx\<close>; and only when both probes have failed does it fail, with the error
  whose message tells the user to install Node and npx or to set the environment
  variables. The trace shows which probes ran, in order.
\<close>

theorem resolve_auto:
  assumes "env w (str ''PLAYWRIGHT_MODE'') = None"
  shows "resolvePlaywright w =
     (if proc w (launched w) (defaultPlaywright w) [str ''--version''] = Some 0
      then (Inr \<lparr>mode = global, cmd = defaultPlaywright w, wrap = (\<lambda>a. a)\<rparr>,
            w\<lparr>trace := trace w @ [Probe (defaultPlaywright w)]\<rparr>)
      else if proc w (Suc (launched w)) (defaultNPX w) [str ''--version''] = Some 0
      then (Inr \<lparr>mode = npx, cmd = defaultNPX w, wrap = (\<lambda>a. str ''playwright'' # a)\<rparr>,
            w\<lparr>trace := trace w @ [Probe (defaultPlaywright w), Probe (defaultNPX w)]\<rparr>)
      else (Inl (Error (str
              ''Could not find Playwright (global) or npx. Install Node+npx or set env vars.'')),
            w\<lparr>trace := trace w @ [Probe (defaultPlaywright w), Probe (defaultNPX w)]\<rparr>))"
  using assms
  by (simp add: resolvePlaywright_def bind_io_def reads_def return_def throw_def
      tryGlobal_eq tryNpx_eq)

theorem resolve_auto_witness:
  "env w_npx_only (str ''PLAYWRIGHT_MODE'') = None \<and>
   resolvePlaywright w_npx_only =
     (Inr \<lparr>mode = npx, cmd = str ''npx'', wrap = (\<lambda>a. str ''playwright'' # a)\<rparr>,
      w_npx_only\<lparr>trace := [Probe (str ''playwright''), Probe (str ''npx'')]\<rparr>)"
proof -
  have e: "env w_npx_only (str ''PLAYWRIGHT_MODE'') = None"
    by (simp add: w_npx_only_def)
  have n: "defaultNPX w_npx_only = str ''npx''"
    "defaultPlaywright w_npx_only = str ''playwright''"
    by (simp_all add: defaultNPX_def defaultPlaywright_def w_npx_only_def)
  have p: "proc w_npx_only k (str ''playwright'') a = None"
    "proc w_npx_only k (str ''npx'') a = Some 0" for k a
    by (simp_all add: w_npx_only_def str_Nil str_Cons)
  have t: "trace w_npx_only = []" by (simp add: w_npx_only_def)
  show ?thesis
    using resolve_auto [OF e] e by (simp add: n p t)
qed

text \<open>
  Claim C5. With \<open>PLAYWRIGHT_MODE=npx\<close> and a failing \<open>npx\<close> probe the resolver
  fails with the error that names \<open>npx\<close> as not found, and the recorder and replay
  flows fail with that error having done nothing but the probe: the trace gains the one
  \<open>Probe\<close> event and no prompt.
\<close>

theorem npx_forced_missing:
  assumes "env w (str ''PLAYWRIGHT_MODE'') = Some (str ''npx'')"
    and "proc w (launched w) (defaultNPX w) [str ''--version''] \<noteq> Some 0"
  shows "resolvePlaywright w =
           (Inl (Error (str ''PLAYWRIGHT_MODE=npx but `npx` not found on PATH.'')),
            w\<lparr>trace := trace w @ [Probe (defaultNPX w)]\<rparr>)
       \<and> recordNewTest rin w =
           (Inl (Error (str ''PLAYWRIGHT_MODE=npx but `npx` not found on PATH.'')),
            w\<lparr>trace := trace w @ [Probe (defaultNPX w)]\<rparr>)
       \<and> replayTest pin w =
           (Inl (Error (str ''PLAYWRIGHT_MODE=npx but `npx` not found on PATH.'')),
            w\<lparr>trace := trace w @ [Probe (defaultNPX w)]\<rparr>)"
proof -
  have r: "resolvePlaywright w =
           (Inl (Error (str ''PLAYWRIGHT_MODE=npx but `npx` not found on PATH.'')),
            w\<lparr>trace := trace w @ [Probe (defaultNPX w)]\<rparr>)"
    using assms
    by (simp add: resolvePlaywright_def bind_io_def reads_def return_def throw_def tryNpx_eq
        npx_not_global)
  show ?thesis
    by (simp add: r recordNewTest_def replayTest_def bind_io_def)
qed

theorem npx_forced_missing_witness:
  "env w_npx_forced (str ''PLAYWRIGHT_MODE'') = Some (str ''npx'')
   \<and> proc w_npx_forced (launched w_npx_forced) (defaultNPX w_npx_forced) [str ''--version'']
       \<noteq> Some 0
   \<and> recordNewTest (record_in (str ''pc'')) w_npx_forced =
       (Inl (Error (str ''PLAYWRIGHT_MODE=npx but `npx` not found on PATH.'')),
        w_npx_forced\<lparr>trace := [Probe (str ''npx'')]\<rparr>)
   \<and> replayTest (replay_in (str ''1'') 1) w_npx_forced =
       (Inl (Error (str ''PLAYWRIGHT_MODE=npx but `npx` not found on PATH.'')),
        w_npx_forced\<lparr>trace := [Probe (str ''npx'')]\<rparr>)"
proof -
  have e: "env w_npx_forced (str ''PLAYWRIGHT_MODE'') = Some (str ''npx'')"
    by (simp add: w_npx_forced_def)
  have p: "proc w_npx_forced (launched w_npx_forced) (defaultNPX w_npx_forced) [str ''--version'']
             \<noteq> Some 0"
    by (simp add: w_npx_forced_def str_Nil str_Cons)
  have n: "defaultNPX w_npx_forced = str ''npx''"
    by (simp add: defaultNPX_def w_npx_forced_def)
  have t: "trace w_npx_forced = []" by (simp add: w_npx_forced_def)
  show ?thesis
    using npx_forced_missing [OF e p, of "record_in (str ''pc'')" "replay_in (str ''1'') 1"] e p
    by (simp add: n t)
qed

section \<open>Numbers\<close>

text \<open>The binary exponent found by \<open>floor_log2\<close> is the right one, and an integer of
  at most 53 bits is a number as it is.\<close>

lemma bit_length_bounds:
  "0 < n \<Longrightarrow> 2 ^ (bit_length n - 1) \<le> n \<and> n < 2 ^ bit_length n"
proof (induction n rule: bit_length.induct)
  case (1 n)
  show ?case
  proof (cases "n div 2 = 0")
    case True
    with 1(2) have "n = 1" by (simp add: div_eq_0_iff) 
    then show ?thesis by (simp add: bit_length.simps [of "Suc 0"] bit_length.simps [of 0])
  next
    case False
    then have h: "2 ^ (bit_length (n div 2) - 1) \<le> n div 2 \<and> n div 2 < 2 ^ bit_length (n div 2)"
      using 1 by simp
    have p: "0 < bit_length (n div 2)"
      using False by (simp add: bit_length.simps [of "n div 2"])
    have b: "bit_length n = Suc (bit_length (n div 2))"
      using 1(2) by (simp add: bit_length.simps [of n])
    have "(2::nat) ^ (bit_length n - 1) = 2 * 2 ^ (bit_length (n div 2) - 1)"
      using p b by (cases "bit_length (n div 2)") simp_all
    moreover have "2 * x \<le> n \<and> n < 2 * (2 * x)" if "x \<le> n div 2" "n div 2 < 2 * x" for x
      using that by linarith
    moreover have "(2::nat) ^ bit_length (n div 2) = 2 * 2 ^ (bit_length (n div 2) - 1)"
      using p by (cases "bit_length (n div 2)") simp_all
    ultimately show ?thesis using h b by (metis power_Suc)
  qed
qed

lemma floor_log2_bounds:
  assumes "0 < a"
  shows "2 powi (floor_log2 a) \<le> a" and "a < 2 powi (floor_log2 a + 1)"
proof -
  obtain n d where q: "quotient_of a = (n, d)" by (cases "quotient_of a")
  have d: "0 < d" using q by (rule quotient_of_denom_pos)
  have a: "a = of_int n / of_int d" using q by (rule quotient_of_div)
  have n: "0 < n" using assms d a by (simp add: zero_less_divide_iff)
  define bn where "bn = bit_length (nat n)"
  define bd where "bd = bit_length (nat d)"
  have bn: "2 ^ (bn - 1) \<le> nat n" "nat n < 2 ^ bn"
    using bit_length_bounds [of "nat n"] n by (simp_all add: bn_def)
  have bd: "2 ^ (bd - 1) \<le> nat d" "nat d < 2 ^ bd"
    using bit_length_bounds [of "nat d"] d by (simp_all add: bd_def)
  have bp: "0 < bn" "0 < bd"
    using bn bd n d by (auto intro: Nat.gr0I)
  define e where "e = int bn - int bd"
  have nr: "(of_int n :: rat) < 2 ^ bn" "(2::rat) ^ (bn - 1) \<le> of_int n"
  proof -
    have "n < 2 ^ bn" using bn(2) n by (simp add: nat_less_iff)
    then show "(of_int n :: rat) < 2 ^ bn" by (metis of_int_less_numeral_power_cancel_iff)
    have "2 ^ (bn - 1) \<le> n" using bn(1) n by (simp add: le_nat_iff)
    then show "(2::rat) ^ (bn - 1) \<le> of_int n" by (metis of_int_numeral_le_iff numeral_power_le_of_int_cancel_iff)
  qed
  have dr: "(of_int d :: rat) < 2 ^ bd" "(2::rat) ^ (bd - 1) \<le> of_int d"
  proof -
    have "d < 2 ^ bd" using bd(2) d by (simp add: nat_less_iff)
    then show "(of_int d :: rat) < 2 ^ bd" by (metis of_int_less_numeral_power_cancel_iff)
    have "2 ^ (bd - 1) \<le> d" using bd(1) d by (simp add: le_nat_iff)
    then show "(2::rat) ^ (bd - 1) \<le> of_int d" by (metis numeral_power_le_of_int_cancel_iff)
  qed
  have dpos: "(0::rat) < of_int d" using d by simp
  have up: "a < 2 powi (e + 1)"
  proof -
    have "a < 2 ^ bn / of_int d"
      unfolding a using nr(1) dpos by (rule divide_strict_right_mono)
    also have "\<dots> \<le> 2 ^ bn / 2 ^ (bd - 1)"
      using dr(2) dpos by (intro divide_left_mono) simp_all
    also have "\<dots> = 2 powi (int bn - int (bd - 1))"
      by (simp add: power_int_diff)
    also have "int bn - int (bd - 1) = e + 1"
      using bp by (simp add: e_def)
    finally show ?thesis .
  qed
  have lo: "2 powi (e - 1) < a"
  proof -
    have "(2::rat) ^ (bn - 1) / 2 ^ bd < 2 ^ (bn - 1) / of_int d"
      using dr(1) dpos by (intro divide_strict_left_mono) simp_all
    also have "\<dots> \<le> a"
      unfolding a using nr(2) dpos by (intro divide_right_mono) simp_all
    finally have "(2::rat) ^ (bn - 1) / 2 ^ bd < a" .
    moreover have "(2::rat) ^ (bn - 1) / 2 ^ bd = 2 powi (int (bn - 1) - int bd)"
      by (simp add: power_int_diff)
    moreover have "int (bn - 1) - int bd = e - 1"
      using bp by (simp add: e_def)
    ultimately show ?thesis by simp
  qed
  have f: "floor_log2 a = (if 2 powi e \<le> a then e else e - 1)"
    by (simp add: floor_log2_def q e_def bn_def bd_def Let_def)
  show "2 powi (floor_log2 a) \<le> a"
    using lo by (simp add: f)
  show "a < 2 powi (floor_log2 a + 1)"
    using up by (auto simp: f)
qed


lemma round_even_of_int [simp]: "round_even (of_int m) = m"
  by (simp add: round_even_def)

lemma round_even_numeral [simp]: "round_even (numeral n) = numeral n"
  using round_even_of_int [of "numeral n"] by simp

lemma power_int_mono_2:
  fixes i j :: int
  shows "((2::rat) powi i \<le> 2 powi j) = (i \<le> j)" "((2::rat) powi i < 2 powi j) = (i < j)"
proof -
  have a: "(2::rat) powi x < 2 powi y" if "x < y" for x y :: int
    using that by (intro power_int_strict_increasing) simp_all
  have b: "(2::rat) powi x \<le> 2 powi y" if "x \<le> y" for x y :: int
    using that by (intro power_int_increasing) simp_all
  show "((2::rat) powi i \<le> 2 powi j) = (i \<le> j)"
    using a [of j i] b [of i j] by (cases "i \<le> j") auto
  show "((2::rat) powi i < 2 powi j) = (i < j)"
    using a [of i j] b [of j i] by (cases "i < j") auto
qed

lemma binary64_nat_exact:
  assumes "0 < a" and "a \<le> 2 ^ 53"
  shows "of_int (round_even (rat_of_int a / 2 powi (max (floor_log2 (of_int a)) (- 1022) - 52)))
           * 2 powi (max (floor_log2 (of_int a)) (- 1022) - 52) = rat_of_int a"
proof -
  define e where "e = floor_log2 (rat_of_int a)"
  have pos: "0 < rat_of_int a" using assms(1) by simp
  have lo: "2 powi e \<le> rat_of_int a" and up: "rat_of_int a < 2 powi (e + 1)"
    using floor_log2_bounds [OF pos] by (simp_all add: e_def)
  have "(2::rat) powi 0 \<le> rat_of_int a" using assms(1) by simp
  then have "(2::rat) powi 0 < 2 powi (e + 1)" using up by (rule order_le_less_trans)
  then have e0: "0 \<le> e" by (simp only: power_int_mono_2)
  have "rat_of_int a \<le> 2 powi 53" using assms(2) by (simp add: of_int_le_numeral_power_cancel_iff)
  with lo have "(2::rat) powi e \<le> 2 powi 53" by (rule order_trans)
  then have e53: "e \<le> 53" by (simp only: power_int_mono_2)
  have m: "max e (- 1022) = e" using e0 by simp
  show ?thesis
  proof (cases "e \<le> 52")
    case True
    define j where "j = nat (52 - e)"
    have u: "(2::rat) powi (e - 52) = 1 / 2 ^ j"
    proof -
      have "e - 52 = - int j" using True by (simp add: j_def)
      then have "(2::rat) powi (e - 52) = 2 powi (- int j)" by simp
      then show ?thesis by (simp add: power_int_minus divide_inverse)
    qed
    have "rat_of_int a / (1 / 2 ^ j) = of_int (a * 2 ^ j)" by simp
    then show ?thesis
      unfolding e_def [symmetric] m u by (simp only: round_even_of_int) simp
  next
    case False
    then have e: "e = 53" using e53 by simp
    have "(2::rat) powi 53 \<le> rat_of_int a" using lo by (simp add: e)
    then have "2 ^ 53 \<le> a" by (simp add: numeral_power_le_of_int_cancel_iff)
    then have a: "a = 2 ^ 53" using assms(2) by simp
    show ?thesis
      unfolding e_def [symmetric] m e by (simp add: a)
  qed
qed

lemma binary64_of_int:
  assumes "\<bar>k\<bar> \<le> 2 ^ 53"
  shows "binary64 (of_int k) = Fin (of_int k)"
proof (cases "k = 0")
  case True
  then show ?thesis by (simp add: binary64_def)
next
  case False
  have a: "\<bar>rat_of_int k\<bar> = rat_of_int \<bar>k\<bar>" by simp
  have x: "of_int (round_even (rat_of_int \<bar>k\<bar> / 2 powi (max (floor_log2 (of_int \<bar>k\<bar>)) (- 1022) - 52)))
           * 2 powi (max (floor_log2 (of_int \<bar>k\<bar>)) (- 1022) - 52) = rat_of_int \<bar>k\<bar>"
    using False assms by (intro binary64_nat_exact) simp_all
  have b: "rat_of_int \<bar>k\<bar> < 2 powi 1024"
  proof -
    have "rat_of_int \<bar>k\<bar> \<le> 2 powi 53" using assms by (simp add: of_int_le_numeral_power_cancel_iff)
    also have "\<dots> < 2 powi 1024" by (simp only: power_int_mono_2)
    finally show ?thesis .
  qed
  show ?thesis
    using False b unfolding binary64_def Let_def a x
    by (cases "k < 0") (simp_all add: not_le)
qed

section \<open>Paths and files\<close>

lemma dirs_above_append:
  "dirs_above pre (xs @ ys) = dirs_above pre xs @ dirs_above (pre @ xs) ys"
  by (induction xs arbitrary: pre) simp_all

lemma dirs_above_plain: "47 \<notin> set xs \<Longrightarrow> dirs_above pre xs = []"
  by (induction xs arbitrary: pre) auto

lemma parents_consts:
  "parents TESTS_DIR = []"
  "parents HISTORY_PATH = [TESTS_DIR]"
  "parents SESSIONS_DIR = [TESTS_DIR]"
  by (simp_all add: parents_def TESTS_DIR_def HISTORY_PATH_def SESSIONS_DIR_def str_Cons str_Nil)

lemma consts_not_empty: "TESTS_DIR \<noteq> []" "HISTORY_PATH \<noteq> []" "SESSIONS_DIR \<noteq> []"
  by (simp_all add: TESTS_DIR_def HISTORY_PATH_def SESSIONS_DIR_def str_Cons)

lemma parents_session:
  assumes "47 \<notin> set x"
  shows "parents (SESSIONS_DIR @ str ''/'' @ x) = [TESTS_DIR, SESSIONS_DIR]"
proof -
  have "dirs_above [] (SESSIONS_DIR @ str ''/'' @ x)
          = dirs_above [] SESSIONS_DIR @ dirs_above SESSIONS_DIR (str ''/'' @ x)"
    using dirs_above_append [of "[]" SESSIONS_DIR] by simp
  moreover have "dirs_above SESSIONS_DIR (str ''/'' @ x) = [SESSIONS_DIR]"
    using assms by (simp add: str_Cons str_Nil consts_not_empty dirs_above_plain)
  ultimately show ?thesis
    using parents_consts(3) by (simp add: parents_def)
qed

lemma parents_session_file:
  assumes "47 \<notin> set x" and "47 \<notin> set f"
  shows "parents (SESSIONS_DIR @ str ''/'' @ x @ str ''/'' @ f)
           = [TESTS_DIR, SESSIONS_DIR, SESSIONS_DIR @ str ''/'' @ x]"
proof -
  have "dirs_above [] ((SESSIONS_DIR @ str ''/'' @ x) @ str ''/'' @ f)
          = dirs_above [] (SESSIONS_DIR @ str ''/'' @ x)
            @ dirs_above (SESSIONS_DIR @ str ''/'' @ x) (str ''/'' @ f)"
    using dirs_above_append [of "[]" "SESSIONS_DIR @ str ''/'' @ x"] by simp
  moreover have "dirs_above (SESSIONS_DIR @ str ''/'' @ x) (str ''/'' @ f)
                   = [SESSIONS_DIR @ str ''/'' @ x]"
    using assms(2) by (simp add: str_Cons str_Nil consts_not_empty dirs_above_plain)
  ultimately show ?thesis
    using parents_session [OF assms(1)] by (simp add: parents_def)
qed

lemma digit_list_digits: "d \<in> set (digit_list n) \<Longrightarrow> d < 10"
proof (induction n rule: digit_list.induct)
  case (1 n)
  then show ?case
    by (cases "n < 10") (auto simp: digit_list.simps [of n])
qed

lemma digit_char_not_slash: "d < 10 \<Longrightarrow> digit_char d \<noteq> 47"
proof -
  assume "d < 10"
  then have "d \<in> {0, 1, 2, 3, 4, 5, 6, 7, 8, 9}" by auto
  then show ?thesis by (auto simp: digit_char_def)
qed

lemma newId_plain: "47 \<notin> set (newId n)"
  using digit_list_digits digit_char_not_slash by (auto simp: newId_def decimal_def)

lemma file_names_plain:
  "47 \<notin> set (str ''script.spec.ts'')" "47 \<notin> set (str ''trace.zip'')"
  "47 \<notin> set (str ''tracegen.js'')"
  by (simp_all add: str_Cons str_Nil)


lemma parents_session_files:
  assumes "47 \<notin> set x"
  shows "parents (SESSIONS_DIR @ str ''/'' @ x @ str ''/script.spec.ts'')
           = [TESTS_DIR, SESSIONS_DIR, SESSIONS_DIR @ str ''/'' @ x]"
    and "parents (SESSIONS_DIR @ str ''/'' @ x @ str ''/trace.zip'')
           = [TESTS_DIR, SESSIONS_DIR, SESSIONS_DIR @ str ''/'' @ x]"
    and "parents (SESSIONS_DIR @ str ''/'' @ x @ str ''/tracegen.js'')
           = [TESTS_DIR, SESSIONS_DIR, SESSIONS_DIR @ str ''/'' @ x]"
proof -
  have e: "str ''/script.spec.ts'' = str ''/'' @ str ''script.spec.ts''"
    "str ''/trace.zip'' = str ''/'' @ str ''trace.zip''"
    "str ''/tracegen.js'' = str ''/'' @ str ''tracegen.js''"
    by (simp_all add: str_Cons str_Nil)
  show "parents (SESSIONS_DIR @ str ''/'' @ x @ str ''/script.spec.ts'')
           = [TESTS_DIR, SESSIONS_DIR, SESSIONS_DIR @ str ''/'' @ x]"
    unfolding e by (rule parents_session_file [OF assms file_names_plain(1)])
  show "parents (SESSIONS_DIR @ str ''/'' @ x @ str ''/trace.zip'')
           = [TESTS_DIR, SESSIONS_DIR, SESSIONS_DIR @ str ''/'' @ x]"
    unfolding e by (rule parents_session_file [OF assms file_names_plain(2)])
  show "parents (SESSIONS_DIR @ str ''/'' @ x @ str ''/tracegen.js'')
           = [TESTS_DIR, SESSIONS_DIR, SESSIONS_DIR @ str ''/'' @ x]"
    unfolding e by (rule parents_session_file [OF assms file_names_plain(3)])
qed

lemma paths_differ:
  "TESTS_DIR \<noteq> HISTORY_PATH"
  "SESSIONS_DIR @ x \<noteq> HISTORY_PATH"
  "HISTORY_PATH \<noteq> TESTS_DIR"
  "HISTORY_PATH \<noteq> SESSIONS_DIR @ x"
  "TESTS_DIR \<noteq> SESSIONS_DIR @ x"
  "SESSIONS_DIR @ x \<noteq> TESTS_DIR"
  "SESSIONS_DIR \<noteq> HISTORY_PATH"
  "HISTORY_PATH \<noteq> SESSIONS_DIR"
  "SESSIONS_DIR \<noteq> TESTS_DIR"
  "TESTS_DIR \<noteq> SESSIONS_DIR"
  by (simp_all add: TESTS_DIR_def SESSIONS_DIR_def HISTORY_PATH_def str_Cons str_Nil)

section \<open>The session store\<close>

lemma Deno_stat_eq:
  "Deno_stat p w = ((if \<not> allow_read w then Inl NotCapable else lookup (files w) p), w)"
  by (simp add: Deno_stat_def)

lemma exists_eq:
  "exists p w =
     ((if \<not> allow_read w then Inl NotCapable
       else (case lookup (files w) p of
               Inr n \<Rightarrow> Inr True
             | Inl e \<Rightarrow> if e = NotFound then Inr False
                         else if e = PermissionDenied then Inr True else Inl e)), w)"
  by (simp add: exists_def Deno_stat_def io_defs split: sum.splits)

lemma exists_world: "exists p w = (r, w1) \<Longrightarrow> w1 = w"
  by (simp add: exists_eq)

lemma lookup_history:
  "lookup fs HISTORY_PATH =
     (case fs TESTS_DIR of
        None \<Rightarrow> Inl NotFound
      | Some Directory \<Rightarrow> (case fs HISTORY_PATH of None \<Rightarrow> Inl NotFound | Some n \<Rightarrow> Inr n)
      | Some Locked \<Rightarrow> Inl PermissionDenied
      | Some _ \<Rightarrow> Inl NotADirectory)"
  by (simp add: lookup_def parents_consts consts_not_empty split: option.splits node.splits)

text \<open>\<open>loadHistory\<close> never changes the world, and its result is \<open>history_of\<close>.\<close>

lemma loadHistory_eq: "loadHistory w = (history_of w, w)"
  by (simp add: loadHistory_def exists_eq readTextFile_def lookup_history io_defs
      JSON_parse_io_def history_of_def split: option.splits node.splits jsval.splits)

lemma history_of_cong:
  assumes "allow_read w1 = allow_read w" and "files w1 TESTS_DIR = files w TESTS_DIR"
    and "files w1 HISTORY_PATH = files w HISTORY_PATH"
  shows "history_of w1 = history_of w"
  unfolding history_of_def assms ..

lemma history_of_trace [simp]: "history_of (w\<lparr>trace := t\<rparr>) = history_of w"
  by (rule history_of_cong) simp_all


lemma ensureDir_eq:
  "ensureDir p w =
     (if \<not> allow_read w then (Inl NotCapable, w)
      else (case lookup (files w) p of
              Inr n \<Rightarrow> if isDirectory n then (Inr (), w) else (Inl (expected_dir n), w)
            | Inl e \<Rightarrow>
                if e \<noteq> NotFound then (Inl e, w)
                else if \<not> allow_write w then (Inl NotCapable, w)
                else if p = [] then (Inl NotFound, w)
                else (case mkdirs (files w) (parents p @ [p]) of
                        Inr fs \<Rightarrow> (Inr (), w\<lparr>files := fs\<rparr>)
                      | Inl e' \<Rightarrow> (Inl (if e' = AlreadyExists then NotFound else e'), w))))"
  by (simp add: ensureDir_def Deno_stat_def Deno_mkdir_def io_defs expected_dir_def
      split: sum.splits)

lemma ensureDir_Inr:
  assumes "ensureDir p w = (Inr u, w1)"
  shows "allow_read w \<and>
         ((\<exists>n. lookup (files w) p = Inr n \<and> isDirectory n \<and> w1 = w)
          \<or> (lookup (files w) p = Inl NotFound \<and> allow_write w \<and> p \<noteq> []
              \<and> (\<exists>fs. mkdirs (files w) (parents p @ [p]) = Inr fs \<and> w1 = w\<lparr>files := fs\<rparr>)))"
  using assms by (auto simp: ensureDir_eq split: if_splits sum.splits)

lemma writeTextFile_Inr:
  assumes "writeTextFile p t w = (Inr u, w1)"
  shows "allow_write w \<and> p \<noteq> [] \<and> walk (files w) (parents p) = None
         \<and> w1 = w\<lparr>files := (files w)(p \<mapsto> Text t)\<rparr>"
  using assms by (auto simp: writeTextFile_def split: if_splits option.splits node.splits)

lemma mkdirs_session:
  assumes "mkdirs fs [TESTS_DIR, SESSIONS_DIR, SESSIONS_DIR @ str ''/'' @ x] = Inr fs'"
    and "47 \<notin> set x"
  shows "(fs TESTS_DIR = None \<longrightarrow> fs' TESTS_DIR = Some Directory \<and> fs' HISTORY_PATH = None)
       \<and> (fs TESTS_DIR \<noteq> None \<longrightarrow>
            fs' TESTS_DIR = fs TESTS_DIR \<and> fs' HISTORY_PATH = fs HISTORY_PATH)
       \<and> fs' TESTS_DIR = Some Directory \<and> fs' SESSIONS_DIR = Some Directory
       \<and> isDirectory (the (fs' (SESSIONS_DIR @ str ''/'' @ x)))
       \<and> fs' (SESSIONS_DIR @ str ''/'' @ x) \<noteq> None"
proof -
  have p: "parents (SESSIONS_DIR @ str ''/'' @ x) = [TESTS_DIR, SESSIONS_DIR]"
    by (rule parents_session [OF assms(2)])
  have d: "SESSIONS_DIR \<noteq> SESSIONS_DIR @ str ''/'' @ x"
    "SESSIONS_DIR @ str ''/'' @ x \<noteq> SESSIONS_DIR"
    by (simp_all add: str_Cons)
  show ?thesis
    using assms(1)
    by (auto simp: new_dir_def parents_consts p d paths_differ isDirectory_def
        split: option.splits node.splits if_splits)
qed


lemma ensureDir_session_history:
  assumes "ensureDir (SESSIONS_DIR @ str ''/'' @ x) w = (Inr u, w1)" and "47 \<notin> set x"
  shows "history_of w1 = history_of w"
proof -
  have p: "parents (SESSIONS_DIR @ str ''/'' @ x) = [TESTS_DIR, SESSIONS_DIR]"
    by (rule parents_session [OF assms(2)])
  from ensureDir_Inr [OF assms(1)] consider "w1 = w"
    | fs where "mkdirs (files w) [TESTS_DIR, SESSIONS_DIR, SESSIONS_DIR @ str ''/'' @ x] = Inr fs"
        and "w1 = w\<lparr>files := fs\<rparr>"
    by (auto simp: p)
  then show ?thesis
  proof cases
    case 1
    then show ?thesis by simp
  next
    case 2
    show ?thesis
      using mkdirs_session [OF 2(1) assms(2)]
      by (cases "files w TESTS_DIR") (auto simp: history_of_def 2(2))
  qed
qed

lemma write_session_file_history:
  assumes "writeTextFile (SESSIONS_DIR @ y) t w = (Inr u, w1)"
  shows "history_of w1 = history_of w"
  using writeTextFile_Inr [OF assms]
  by (intro history_of_cong) (auto simp: paths_differ)

lemma saveHistory_Inr:
  assumes "saveHistory es w = (Inr u, w')"
  shows "allow_read w' \<and> files w' TESTS_DIR = Some Directory
         \<and> files w' HISTORY_PATH = Some (Text (JSON_stringify (JArr es)))"
proof -
  obtain w1 where e: "ensureDir TESTS_DIR w = (Inr (), w1)"
    and wr: "writeTextFile HISTORY_PATH (JSON_stringify (JArr es)) w1 = (Inr u, w')"
    using assms unfolding saveHistory_def bind_io_def
    by (cases "ensureDir TESTS_DIR w") (auto split: sum.splits)
  have r: "allow_read w1"
    using ensureDir_Inr [OF e] by auto
  have w: "walk (files w1) [TESTS_DIR] = None"
    and w': "w' = w1\<lparr>files := (files w1)(HISTORY_PATH \<mapsto> Text (JSON_stringify (JArr es)))\<rparr>"
    using writeTextFile_Inr [OF wr] by (simp_all add: parents_consts)
  have "files w1 TESTS_DIR = Some Directory"
    using w by (auto split: option.splits node.splits)
  then show ?thesis
    using r by (simp add: w' paths_differ)
qed

lemma history_of_saved:
  assumes "saveHistory es w = (Inr u, w')" and "plain (JArr es)"
  shows "history_of w' = Inr es"
  using saveHistory_Inr [OF assms(1)] JSON_roundtrip [OF assms(2)]
  by (simp add: history_of_def)

subsection \<open>Loading and saving\<close>

lemma new_dir_no_files: "new_dir d no_files = no_files(d \<mapsto> Directory)"
  by (auto simp: new_dir_def no_files_def fun_eq_iff)

lemma new_dir_upd:
  "x \<noteq> d \<Longrightarrow> d \<notin> set (parents x) \<Longrightarrow> new_dir d (fs(x \<mapsto> n)) = (new_dir d fs)(x \<mapsto> n)"
  by (auto simp: new_dir_def fun_eq_iff)

lemma w_fresh_fields:
  "env w_fresh = (\<lambda>k. None)" "files w_fresh = no_files" "trace w_fresh = []"
  "proc w_fresh = (\<lambda>k c a. Some 0)" "isWindows w_fresh = False"
  "allow_read w_fresh" "allow_write w_fresh"
  by (simp_all add: w_fresh_def)

text \<open>What does hold of \<open>loadHistory\<close>: with the read permission, and unless a file
  stands where the directory \<open>tests\<close> should be, a history file that is absent,
  cannot be read or holds no valid JSON gives the empty history, and nothing is
  raised.\<close>

lemma loadHistory_degrades:
  assumes "allow_read w"
    and "files w TESTS_DIR = None \<or> files w TESTS_DIR = Some Directory
         \<or> files w TESTS_DIR = Some Locked"
    and "files w HISTORY_PATH = None \<or> files w HISTORY_PATH = Some NoAccess
         \<or> files w HISTORY_PATH = Some Directory \<or> files w HISTORY_PATH = Some Locked
         \<or> (\<exists>txt. files w HISTORY_PATH = Some (Text txt) \<and> JSON_parse txt = None)"
  shows "loadHistory w = (Inr [], w)"
  using assms by (auto simp: loadHistory_eq history_of_def)

text \<open>
  Claim C2 fails on the code. \<open>loadHistory\<close> calls \<open>exists(HISTORY_PATH)\<close> before
  its \<open>try\<close>, and \<open>exists\<close> throws every error of \<open>Deno.stat\<close> on but
  NotFound. With a text file where the directory \<open>tests\<close> should be, the history
  file \<open>tests/history.json\<close> is absent, \<open>Deno.stat\<close> fails with NotADirectory,
  and \<open>loadHistory\<close> raises that error to its caller instead of returning the empty
  history.
\<close>

theorem loadHistory_raises:
  "files w_tests_file TESTS_DIR = Some (Text [])
   \<and> files w_tests_file HISTORY_PATH = None
   \<and> Deno_stat HISTORY_PATH w_tests_file = (Inl NotADirectory, w_tests_file)
   \<and> exists HISTORY_PATH w_tests_file = (Inl NotADirectory, w_tests_file)
   \<and> loadHistory w_tests_file = (Inl NotADirectory, w_tests_file)"
proof -
  have f: "files w_tests_file TESTS_DIR = Some (Text [])" "files w_tests_file HISTORY_PATH = None"
    "allow_read w_tests_file"
    by (simp_all add: w_tests_file_def w_fresh_def no_files_def paths_differ)
  show ?thesis
    by (simp add: f loadHistory_eq history_of_def exists_eq Deno_stat_eq lookup_history)
qed

lemma with_history_fields:
  "allow_read (with_history n)" "files (with_history n) TESTS_DIR = Some Directory"
  "files (with_history n) HISTORY_PATH = Some n"
  by (simp_all add: with_history_def w_fresh_def paths_differ)

lemma read_with_history:
  "readTextFile HISTORY_PATH (with_history (Text txt)) = (Inr txt, with_history (Text txt))"
  by (simp add: readTextFile_def lookup_history with_history_fields)

text \<open>
  Claim C9. \<open>loadHistory\<close> checks no element: when the text read from the history file
  parses to an array, that array's elements are the history, whatever they are; when it
  parses to any other value, the history is empty.
\<close>

theorem loadHistory_unchecked:
  assumes "readTextFile HISTORY_PATH w = (Inr txt, w)" and "JSON_parse txt = Some data"
  shows "loadHistory w = (Inr (case data of JArr vs \<Rightarrow> vs | _ \<Rightarrow> []), w)"
proof -
  have "allow_read w \<and> files w TESTS_DIR = Some Directory \<and> files w HISTORY_PATH = Some (Text txt)"
    using assms(1)
    by (auto simp: readTextFile_def lookup_history split: if_splits option.splits node.splits)
  then show ?thesis
    using assms(2) by (simp add: loadHistory_eq history_of_def)
qed

theorem loadHistory_unchecked_witness:
  \<open>readTextFile HISTORY_PATH (with_history (Text (str ''["x", null]'')))
      = (Inr (str ''["x", null]''), with_history (Text (str ''["x", null]'')))
   \<and> JSON_parse (str ''["x", null]'') = Some (JArr [JStr (str ''x''), JNull])
   \<and> loadHistory (with_history (Text (str ''["x", null]'')))
      = (Inr [JStr (str ''x''), JNull], with_history (Text (str ''["x", null]'')))
   \<and> readTextFile HISTORY_PATH (with_history (Text (str ''{"a": true}'')))
      = (Inr (str ''{"a": true}''), with_history (Text (str ''{"a": true}'')))
   \<and> JSON_parse (str ''{"a": true}'') = Some (JObj [(str ''a'', JBool True)])
   \<and> loadHistory (with_history (Text (str ''{"a": true}'')))
      = (Inr [], with_history (Text (str ''{"a": true}'')))\<close>
proof -
  have a: \<open>JSON_parse (str ''["x", null]'') = Some (JArr [JStr (str ''x''), JNull])\<close>
    by code_simp
  have b: \<open>JSON_parse (str ''{"a": true}'') = Some (JObj [(str ''a'', JBool True)])\<close>
    by code_simp
  show ?thesis
    using loadHistory_unchecked [OF read_with_history a]
      loadHistory_unchecked [OF read_with_history b] a b read_with_history
    by simp
qed

lemma plain_entry: "plain (HistoryEntry_obj e)"
  by (simp add: HistoryEntry_obj_def is_array_index_def str_Cons str_Nil is_digit_def)

lemma plain_history: "plain (JArr (map HistoryEntry_obj H))"
  by (simp add: list_all_iff plain_entry)

lemma bind_io_InrE:
  assumes "bind_io m f w = (Inr x, w')"
  obtains y w1 where "m w = (Inr y, w1)" and "f y w1 = (Inr x, w')"
  using assms by (cases "m w") (auto simp: bind_io_def split: sum.splits)

text \<open>
  Claim C1. A history of entries (each field a string) that \<open>saveHistory\<close> has
  written is what \<open>loadHistory\<close> then returns: the same entries, with the same field
  values, in the same order.
\<close>

theorem save_then_load:
  assumes "saveHistory (map HistoryEntry_obj H) w = (Inr (), w')"
  shows "loadHistory w' = (Inr (map HistoryEntry_obj H), w')"
  using history_of_saved [OF assms plain_history] by (simp add: loadHistory_eq)

theorem save_then_load_witness:
  "saveHistory (map HistoryEntry_obj [session1]) w_fresh
     = (Inr (), w_fresh\<lparr>files := no_files
          (TESTS_DIR \<mapsto> Directory,
           HISTORY_PATH \<mapsto> Text (JSON_stringify (JArr [HistoryEntry_obj session1])))\<rparr>)
   \<and> loadHistory (w_fresh\<lparr>files := no_files
          (TESTS_DIR \<mapsto> Directory,
           HISTORY_PATH \<mapsto> Text (JSON_stringify (JArr [HistoryEntry_obj session1])))\<rparr>)
     = (Inr [HistoryEntry_obj session1], w_fresh\<lparr>files := no_files
          (TESTS_DIR \<mapsto> Directory,
           HISTORY_PATH \<mapsto> Text (JSON_stringify (JArr [HistoryEntry_obj session1])))\<rparr>)"
proof -
  have l: "lookup no_files TESTS_DIR = Inl NotFound"
    by (simp add: lookup_def parents_consts consts_not_empty no_files_def)
  have s: "saveHistory (map HistoryEntry_obj [session1]) w_fresh
     = (Inr (), w_fresh\<lparr>files := no_files
          (TESTS_DIR \<mapsto> Directory,
           HISTORY_PATH \<mapsto> Text (JSON_stringify (JArr [HistoryEntry_obj session1])))\<rparr>)"
    by (simp add: saveHistory_def bind_io_def ensureDir_eq writeTextFile_def w_fresh_fields l
        parents_consts consts_not_empty new_dir_no_files no_files_def paths_differ)
  show ?thesis
    using save_then_load [OF s] s by simp
qed

section \<open>The recorder flow\<close>

lemma prompt_eqs:
  "Input_prompt m a w = (Inr a, w\<lparr>trace := trace w @ [Ask m]\<rparr>)"
  "Select_prompt m a w = (Inr a, w\<lparr>trace := trace w @ [Ask m]\<rparr>)"
  "Confirm_prompt m b w = (Inr b, w\<lparr>trace := trace w @ [Ask m]\<rparr>)"
  by (simp_all add: Input_prompt_def Select_prompt_def Confirm_prompt_def io_defs)

lemma run_eq:
  "run c a w =
     ((case proc w (launched w) c a of
         None \<Rightarrow> Inl OSError
       | Some code \<Rightarrow>
           if code \<noteq> 0
           then Inl (Error (str ''Command failed: '' @ c @ str '' '' @ join (str '' '') a))
           else Inr ()),
      w\<lparr>trace := trace w @ [Spawn c a, Wait 1]\<rparr>)"
  by (simp add: run_def run_start_def await_def bind_io_def Let_def)

lemma run_world:
  "run c a w = (r, w1) \<Longrightarrow> w1 = w\<lparr>trace := trace w @ [Spawn c a, Wait 1]\<rparr>"
  by (simp add: run_eq)

lemma resolve_trace:
  assumes "resolvePlaywright w = (r, w1)"
  shows "\<exists>ps. w1 = w\<lparr>trace := trace w @ map Probe ps\<rparr>"
  using resolvePlaywright_probes [of w] assms by simp

lemma ensureDir_new_session:
  "ensureDir (SESSIONS_DIR @ str ''/'' @ newId n) w = (Inr u, w1) \<Longrightarrow> history_of w1 = history_of w"
  by (rule ensureDir_session_history [OF _ newId_plain])

lemma loadHistory_Inr: "(loadHistory w = (Inr H, w1)) = (history_of w = Inr H \<and> w1 = w)"
  by (auto simp: loadHistory_eq)

lemma recordNewTest_Inr:
  assumes "recordNewTest inp w = (Inr (), w')" and "loadHistory w = (Inr H, w)"
  shows "allow_read w' \<and> files w' TESTS_DIR = Some Directory \<and>
         files w' HISTORY_PATH =
           Some (Text (JSON_stringify (JArr (H @ [HistoryEntry_obj
             \<lparr>entry_id = newId (now_ms inp), url = url_answer inp, device = device_answer inp,
              createdAt = now_iso inp, feedback = feedback_answer inp,
              scriptPath = SESSIONS_DIR @ str ''/'' @ newId (now_ms inp) @ str ''/script.spec.ts'',
              tracePath = SESSIONS_DIR @ str ''/'' @ newId (now_ms inp) @ str ''/trace.zip''\<rparr>]))))"
  using assms unfolding recordNewTest_def Let_def
  by (auto simp: prompt_eqs return_def throw_def reads_def loadHistory_Inr
      split: if_splits
      elim!: bind_io_InrE
      dest!: resolve_trace run_world ensureDir_new_session write_session_file_history
        exists_world saveHistory_Inr)

subsection \<open>Two recordings\<close>

lemma example_paths:
  "SESSIONS_DIR @ str ''/'' @ str ''1753927438951'' = str ''tests/sessions/1753927438951''"
  "SESSIONS_DIR @ str ''/'' @ str ''1753927438951'' @ str ''/script.spec.ts''
     = str ''tests/sessions/1753927438951/script.spec.ts''"
  "SESSIONS_DIR @ str ''/'' @ str ''1753927438951'' @ str ''/trace.zip''
     = str ''tests/sessions/1753927438951/trace.zip''"
  "str ''tests/sessions/1753927438951'' @ str ''/script.spec.ts''
     = str ''tests/sessions/1753927438951/script.spec.ts''"
  "str ''tests/sessions/1753927438951'' @ str ''/trace.zip''
     = str ''tests/sessions/1753927438951/trace.zip''"
  "SESSIONS_DIR @ str ''/'' @ str ''1753927499000'' = str ''tests/sessions/1753927499000''"
  "SESSIONS_DIR @ str ''/'' @ str ''1753927499000'' @ str ''/script.spec.ts''
     = str ''tests/sessions/1753927499000/script.spec.ts''"
  "SESSIONS_DIR @ str ''/'' @ str ''1753927499000'' @ str ''/trace.zip''
     = str ''tests/sessions/1753927499000/trace.zip''"
  "str ''tests/sessions/1753927499000'' @ str ''/script.spec.ts''
     = str ''tests/sessions/1753927499000/script.spec.ts''"
  "str ''tests/sessions/1753927499000'' @ str ''/trace.zip''
     = str ''tests/sessions/1753927499000/trace.zip''"
  by (simp_all add: SESSIONS_DIR_def TESTS_DIR_def str_Cons str_Nil)

lemma example_paths_differ:
  "TESTS_DIR \<noteq> SESSIONS_DIR"
  "TESTS_DIR \<noteq> HISTORY_PATH"
  "TESTS_DIR \<noteq> str ''tests/sessions/1753927438951''"
  "TESTS_DIR \<noteq> str ''tests/sessions/1753927499000''"
  "TESTS_DIR \<noteq> str ''tests/sessions/1753927438951/trace.zip''"
  "TESTS_DIR \<noteq> str ''tests/sessions/1753927499000/trace.zip''"
  "SESSIONS_DIR \<noteq> TESTS_DIR"
  "SESSIONS_DIR \<noteq> HISTORY_PATH"
  "SESSIONS_DIR \<noteq> str ''tests/sessions/1753927438951''"
  "SESSIONS_DIR \<noteq> str ''tests/sessions/1753927499000''"
  "SESSIONS_DIR \<noteq> str ''tests/sessions/1753927438951/trace.zip''"
  "SESSIONS_DIR \<noteq> str ''tests/sessions/1753927499000/trace.zip''"
  "HISTORY_PATH \<noteq> TESTS_DIR"
  "HISTORY_PATH \<noteq> SESSIONS_DIR"
  "HISTORY_PATH \<noteq> str ''tests/sessions/1753927438951''"
  "HISTORY_PATH \<noteq> str ''tests/sessions/1753927499000''"
  "HISTORY_PATH \<noteq> str ''tests/sessions/1753927438951/trace.zip''"
  "HISTORY_PATH \<noteq> str ''tests/sessions/1753927499000/trace.zip''"
  "str ''tests/sessions/1753927438951'' \<noteq> TESTS_DIR"
  "str ''tests/sessions/1753927438951'' \<noteq> SESSIONS_DIR"
  "str ''tests/sessions/1753927438951'' \<noteq> HISTORY_PATH"
  "str ''tests/sessions/1753927438951'' \<noteq> str ''tests/sessions/1753927499000''"
  "str ''tests/sessions/1753927438951'' \<noteq> str ''tests/sessions/1753927438951/trace.zip''"
  "str ''tests/sessions/1753927438951'' \<noteq> str ''tests/sessions/1753927499000/trace.zip''"
  "str ''tests/sessions/1753927499000'' \<noteq> TESTS_DIR"
  "str ''tests/sessions/1753927499000'' \<noteq> SESSIONS_DIR"
  "str ''tests/sessions/1753927499000'' \<noteq> HISTORY_PATH"
  "str ''tests/sessions/1753927499000'' \<noteq> str ''tests/sessions/1753927438951''"
  "str ''tests/sessions/1753927499000'' \<noteq> str ''tests/sessions/1753927438951/trace.zip''"
  "str ''tests/sessions/1753927499000'' \<noteq> str ''tests/sessions/1753927499000/trace.zip''"
  "str ''tests/sessions/1753927438951/trace.zip'' \<noteq> TESTS_DIR"
  "str ''tests/sessions/1753927438951/trace.zip'' \<noteq> SESSIONS_DIR"
  "str ''tests/sessions/1753927438951/trace.zip'' \<noteq> HISTORY_PATH"
  "str ''tests/sessions/1753927438951/trace.zip'' \<noteq> str ''tests/sessions/1753927438951''"
  "str ''tests/sessions/1753927438951/trace.zip'' \<noteq> str ''tests/sessions/1753927499000''"
  "str ''tests/sessions/1753927438951/trace.zip'' \<noteq> str ''tests/sessions/1753927499000/trace.zip''"
  "str ''tests/sessions/1753927499000/trace.zip'' \<noteq> TESTS_DIR"
  "str ''tests/sessions/1753927499000/trace.zip'' \<noteq> SESSIONS_DIR"
  "str ''tests/sessions/1753927499000/trace.zip'' \<noteq> HISTORY_PATH"
  "str ''tests/sessions/1753927499000/trace.zip'' \<noteq> str ''tests/sessions/1753927438951''"
  "str ''tests/sessions/1753927499000/trace.zip'' \<noteq> str ''tests/sessions/1753927499000''"
  "str ''tests/sessions/1753927499000/trace.zip'' \<noteq> str ''tests/sessions/1753927438951/trace.zip''"
  by (simp_all add: TESTS_DIR_def SESSIONS_DIR_def HISTORY_PATH_def str_Cons str_Nil)

lemma example_parents:
  "parents (str ''tests/sessions/1753927438951'') = [TESTS_DIR, SESSIONS_DIR]"
  "parents (str ''tests/sessions/1753927438951/trace.zip'')
     = [TESTS_DIR, SESSIONS_DIR, str ''tests/sessions/1753927438951'']"
  "parents (str ''tests/sessions/1753927499000'') = [TESTS_DIR, SESSIONS_DIR]"
  "parents (str ''tests/sessions/1753927499000/trace.zip'')
     = [TESTS_DIR, SESSIONS_DIR, str ''tests/sessions/1753927499000'']"
proof -
  have a: "47 \<notin> set (str ''1753927438951'')" "47 \<notin> set (str ''1753927499000'')"
    by (simp_all add: str_Cons str_Nil)
  show "parents (str ''tests/sessions/1753927438951'') = [TESTS_DIR, SESSIONS_DIR]"
    using parents_session [OF a(1)] by (simp add: example_paths)
  show "parents (str ''tests/sessions/1753927499000'') = [TESTS_DIR, SESSIONS_DIR]"
    using parents_session [OF a(2)] by (simp add: example_paths)
  show "parents (str ''tests/sessions/1753927438951/trace.zip'')
     = [TESTS_DIR, SESSIONS_DIR, str ''tests/sessions/1753927438951'']"
    using parents_session_files(2) [OF a(1)] by (simp add: example_paths)
  show "parents (str ''tests/sessions/1753927499000/trace.zip'')
     = [TESTS_DIR, SESSIONS_DIR, str ''tests/sessions/1753927499000'']"
    using parents_session_files(2) [OF a(2)] by (simp add: example_paths)
qed

lemma example_not_empty:
  "str ''tests/sessions/1753927438951'' \<noteq> []" "str ''tests/sessions/1753927499000'' \<noteq> []"
  "str ''tests/sessions/1753927438951/trace.zip'' \<noteq> []"
  "str ''tests/sessions/1753927499000/trace.zip'' \<noteq> []"
  by (simp_all add: str_Cons)

lemma example_ids:
  "newId 1753927438951 = str ''1753927438951''" "newId 1753927499000 = str ''1753927499000''"
  by (simp_all add: newId_def decimal_def digit_list.simps digit_char_def str_Cons str_Nil)

lemma resolve_fresh:
  "resolvePlaywright w_fresh =
      (Inr \<lparr>mode = global, cmd = str ''playwright'', wrap = (\<lambda>a. a)\<rparr>,
       w_fresh\<lparr>trace := [Probe (str ''playwright'')]\<rparr>)"
  by (simp add: resolvePlaywright_def io_defs tryGlobal_eq w_fresh_fields defaultPlaywright_def)

lemma example_presets:
  "isDeviceType (str ''pc'')" "isDeviceType (str ''mobile'')"
  "devicePreset (str ''pc'') = str ''Desktop Chrome''"
  "devicePreset (str ''mobile'') = str ''iPhone 13''"
  by (simp_all add: isDeviceType_def devicePreset_def str_Cons)

lemma record_example: "recordNewTest (record_in (str ''pc'')) w_fresh = (Inr (), w_after_record)"
proof -
  have e: "\<lparr>entry_id = str ''1753927438951'',
      url = str ''https://translate.google.com/'', device = str ''pc'',
      createdAt = str ''2025-07-31T02:03:58.951Z'', feedback = str '''',
      scriptPath = str ''tests/sessions/1753927438951/script.spec.ts'',
      tracePath = str ''tests/sessions/1753927438951/trace.zip''\<rparr> = session1"
    by (simp add: session1_def)
  have l: "lookup no_files (str ''tests/sessions/1753927438951'') = Inl NotFound"
    by (simp add: lookup_def example_parents no_files_def)
  show ?thesis
    unfolding recordNewTest_def Let_def
    apply (simp add: resolve_fresh bind_io_def prompt_eqs record_in_def example_presets
        example_paths example_ids run_eq ensureDir_eq l loadHistory_eq history_of_def
        saveHistory_def writeTextFile_def exists_eq lookup_def return_def throw_def
        example_parents parents_consts consts_not_empty paths_differ example_paths_differ
        example_not_empty new_dir_no_files new_dir_upd isDirectory_def
        e w_after_record_def w_fresh_fields no_files_def launched_def)
    apply (auto simp: fun_eq_iff)
    done
qed


lemma w_recorded_fields:
  "env w_recorded = (\<lambda>k. None)" "trace w_recorded = []"
  "proc w_recorded = (\<lambda>k c a. Some 0)" "isWindows w_recorded = False"
  "allow_read w_recorded" "allow_write w_recorded"
  "files w_recorded = files_recorded"
  by (simp_all add: w_recorded_def w_fresh_def)

lemma files_recorded_at:
  "files_recorded TESTS_DIR = Some Directory"
  "files_recorded SESSIONS_DIR = Some Directory"
  "files_recorded (str ''tests/sessions/1753927438951'') = Some Directory"
  "files_recorded HISTORY_PATH = Some (Text (JSON_stringify (JArr [HistoryEntry_obj session1])))"
  "files_recorded (str ''tests/sessions/1753927438951/trace.zip'') = Some (Text [])"
  "files_recorded (str ''tests/sessions/1753927499000'') = None"
  "files_recorded (str ''tests/sessions/1753927499000/trace.zip'') = None"
  by (simp_all add: files_recorded_def session1_def paths_differ example_paths_differ no_files_def)

lemma parse_recorded:
  "JSON_parse (JSON_stringify (JArr [HistoryEntry_obj session1])) = Some (JArr [HistoryEntry_obj session1])"
  using JSON_roundtrip [OF plain_history, of "[session1]"] by simp

lemma resolve_recorded:
  "resolvePlaywright w_recorded =
      (Inr \<lparr>mode = global, cmd = str ''playwright'', wrap = (\<lambda>a. a)\<rparr>,
       w_recorded\<lparr>trace := [Probe (str ''playwright'')]\<rparr>)"
  by (simp add: resolvePlaywright_def io_defs tryGlobal_eq w_recorded_fields
      defaultPlaywright_def)

lemma load_recorded: "loadHistory w_recorded = (Inr [HistoryEntry_obj session1], w_recorded)"
  by (simp add: loadHistory_eq history_of_def w_recorded_fields files_recorded_at parse_recorded)

lemma record_example_again: "recordNewTest record_again w_recorded = (Inr (), w_after_second)"
proof -
  have e: "\<lparr>entry_id = str ''1753927499000'',
      url = str ''https://example.com'', device = str ''mobile'',
      createdAt = str ''2025-07-31T02:04:59.000Z'', feedback = str ''ok'',
      scriptPath = str ''tests/sessions/1753927499000/script.spec.ts'',
      tracePath = str ''tests/sessions/1753927499000/trace.zip''\<rparr> = session2"
    by (simp add: session2_def)
  have l: "lookup files_recorded (str ''tests/sessions/1753927499000'') = Inl NotFound"
    by (simp add: lookup_def example_parents files_recorded_at example_not_empty)
  have nd: "new_dir (str ''tests/sessions/1753927499000'') files_recorded
              = files_recorded(str ''tests/sessions/1753927499000'' \<mapsto> Directory)"
    by (auto simp: new_dir_def fun_eq_iff files_recorded_def no_files_def parents_consts
        example_parents session1_def example_paths_differ split: if_splits)
  show ?thesis
    unfolding recordNewTest_def Let_def
    apply (simp add: resolve_recorded bind_io_def prompt_eqs record_again_def example_presets
        example_paths example_ids run_eq ensureDir_eq l loadHistory_eq history_of_def
        saveHistory_def writeTextFile_def exists_eq lookup_def return_def throw_def
        example_parents parents_consts consts_not_empty paths_differ example_paths_differ
        example_not_empty nd isDirectory_def files_recorded_at parse_recorded
        e w_after_second_def w_recorded_fields launched_def)
    apply (simp add: w_recorded_def)
    done
qed

subsection \<open>What a recording persists\<close>

lemma recordNewTest_loads:
  assumes "recordNewTest inp w = (Inr (), w')"
  shows "\<exists>H. loadHistory w = (Inr H, w)"
proof -
  have "\<not> isl (history_of w)"
    using assms unfolding recordNewTest_def Let_def
    by (auto simp: prompt_eqs return_def throw_def reads_def loadHistory_Inr
        split: if_splits
        elim!: bind_io_InrE
        dest!: resolve_trace run_world ensureDir_new_session write_session_file_history)
      (metis sum.disc(2))+
  then show ?thesis
    by (cases "history_of w") (simp_all add: loadHistory_eq)
qed

text \<open>
  Claim C8. When the recorder flow succeeds, the text it leaves in
  \<open>tests/history.json\<close> is the serialization of the history it found, \<open>H\<close>,
  followed by the new entry: nothing of \<open>H\<close> is dropped, changed or moved, and the
  new entry is last. When \<open>H\<close> holds only values that \<open>JSON.parse\<close> reads back as
  written (every list of entries does), loading afterwards returns \<open>H\<close> followed by
  the new entry.
\<close>

theorem record_appends:
  assumes "recordNewTest inp w = (Inr (), w')" and "loadHistory w = (Inr H, w)"
  shows "let e = \<lparr>entry_id = newId (now_ms inp), url = url_answer inp,
                  device = device_answer inp, createdAt = now_iso inp,
                  feedback = feedback_answer inp,
                  scriptPath = SESSIONS_DIR @ str ''/'' @ newId (now_ms inp)
                               @ str ''/script.spec.ts'',
                  tracePath = SESSIONS_DIR @ str ''/'' @ newId (now_ms inp)
                              @ str ''/trace.zip''\<rparr>
         in files w' HISTORY_PATH
              = Some (Text (JSON_stringify (JArr (H @ [HistoryEntry_obj e]))))
          \<and> (plain (JArr H) \<longrightarrow> loadHistory w' = (Inr (H @ [HistoryEntry_obj e]), w'))"
proof -
  define e where "e = \<lparr>entry_id = newId (now_ms inp), url = url_answer inp,
                  device = device_answer inp, createdAt = now_iso inp,
                  feedback = feedback_answer inp,
                  scriptPath = SESSIONS_DIR @ str ''/'' @ newId (now_ms inp)
                               @ str ''/script.spec.ts'',
                  tracePath = SESSIONS_DIR @ str ''/'' @ newId (now_ms inp)
                              @ str ''/trace.zip''\<rparr>"
  have f: "allow_read w' \<and> files w' TESTS_DIR = Some Directory \<and>
      files w' HISTORY_PATH = Some (Text (JSON_stringify (JArr (H @ [HistoryEntry_obj e]))))"
    unfolding e_def by (rule recordNewTest_Inr [OF assms])
  have "loadHistory w' = (Inr (H @ [HistoryEntry_obj e]), w')" if "plain (JArr H)"
  proof -
    have "plain (JArr (H @ [HistoryEntry_obj e]))"
      using that by (simp add: plain_entry)
    then show ?thesis
      using f by (simp add: loadHistory_eq history_of_def JSON_roundtrip)
  qed
  then show ?thesis
    using f by (simp add: Let_def e_def)
qed

lemma example_entries:
  "\<lparr>entry_id = newId (now_ms (record_in (str ''pc''))),
      url = url_answer (record_in (str ''pc'')), device = device_answer (record_in (str ''pc'')),
      createdAt = now_iso (record_in (str ''pc'')),
      feedback = feedback_answer (record_in (str ''pc'')),
      scriptPath = SESSIONS_DIR @ str ''/'' @ newId (now_ms (record_in (str ''pc'')))
                   @ str ''/script.spec.ts'',
      tracePath = SESSIONS_DIR @ str ''/'' @ newId (now_ms (record_in (str ''pc'')))
                  @ str ''/trace.zip''\<rparr> = session1"
  "\<lparr>entry_id = newId (now_ms record_again),
      url = url_answer record_again, device = device_answer record_again,
      createdAt = now_iso record_again,
      feedback = feedback_answer record_again,
      scriptPath = SESSIONS_DIR @ str ''/'' @ newId (now_ms record_again)
                   @ str ''/script.spec.ts'',
      tracePath = SESSIONS_DIR @ str ''/'' @ newId (now_ms record_again)
                  @ str ''/trace.zip''\<rparr> = session2"
  by (simp_all add: record_in_def record_again_def session1_def session2_def example_ids
      example_paths)

theorem record_appends_witness:
  "recordNewTest record_again w_recorded = (Inr (), w_after_second)
   \<and> loadHistory w_recorded = (Inr [HistoryEntry_obj session1], w_recorded)
   \<and> files w_after_second HISTORY_PATH
       = Some (Text (JSON_stringify (JArr ([HistoryEntry_obj session1] @ [HistoryEntry_obj session2]))))
   \<and> plain (JArr [HistoryEntry_obj session1])
   \<and> loadHistory w_after_second
       = (Inr ([HistoryEntry_obj session1] @ [HistoryEntry_obj session2]), w_after_second)"
  using record_appends [OF record_example_again load_recorded] record_example_again load_recorded
    plain_entry [of session1]
  by (simp add: Let_def example_entries)

text \<open>
  Claim C10. The entry a successful recorder flow persists, the last object of the array
  written to \<open>tests/history.json\<close>, has paths that are functions of its identifier:
  with \<open>id\<close> the decimal numeral of the clock reading, its \<open>scriptPath\<close> is
  \<open>tests/sessions/<id>/script.spec.ts\<close> and its \<open>tracePath\<close> is
  \<open>tests/sessions/<id>/trace.zip\<close>, both inside the directory of the sessions root
  that is named by the identifier.
\<close>

theorem session_paths:
  assumes "recordNewTest inp w = (Inr (), w')"
  shows "\<exists>H ps sid.
           files w' HISTORY_PATH = Some (Text (JSON_stringify (JArr (H @ [JObj ps]))))
         \<and> sid = newId (now_ms inp)
         \<and> map_of ps (str ''id'') = Some (JStr sid)
         \<and> map_of ps (str ''scriptPath'')
             = Some (JStr (SESSIONS_DIR @ str ''/'' @ sid @ str ''/script.spec.ts''))
         \<and> map_of ps (str ''tracePath'')
             = Some (JStr (SESSIONS_DIR @ str ''/'' @ sid @ str ''/trace.zip''))"
proof -
  obtain H where h: "loadHistory w = (Inr H, w)"
    using recordNewTest_loads [OF assms] by blast
  define e where "e = \<lparr>entry_id = newId (now_ms inp), url = url_answer inp,
                  device = device_answer inp, createdAt = now_iso inp,
                  feedback = feedback_answer inp,
                  scriptPath = SESSIONS_DIR @ str ''/'' @ newId (now_ms inp)
                               @ str ''/script.spec.ts'',
                  tracePath = SESSIONS_DIR @ str ''/'' @ newId (now_ms inp)
                              @ str ''/trace.zip''\<rparr>"
  obtain ps where ps: "HistoryEntry_obj e = JObj ps"
    and m: "map_of ps (str ''id'') = Some (JStr (entry_id e))"
      "map_of ps (str ''scriptPath'') = Some (JStr (scriptPath e))"
      "map_of ps (str ''tracePath'') = Some (JStr (tracePath e))"
    by (simp add: HistoryEntry_obj_def str_Cons str_Nil)
  have "files w' HISTORY_PATH = Some (Text (JSON_stringify (JArr (H @ [JObj ps]))))"
    using recordNewTest_Inr [OF assms h] by (simp add: e_def [symmetric] ps)
  then show ?thesis
    using m by (intro exI [of _ H] exI [of _ ps] exI [of _ "newId (now_ms inp)"]) (simp add: e_def)
qed

theorem session_paths_witness:
  "recordNewTest (record_in (str ''pc'')) w_fresh = (Inr (), w_after_record)
   \<and> (\<exists>H ps sid.
           files w_after_record HISTORY_PATH
             = Some (Text (JSON_stringify (JArr (H @ [JObj ps]))))
         \<and> sid = str ''1753927438951''
         \<and> map_of ps (str ''id'') = Some (JStr sid)
         \<and> map_of ps (str ''scriptPath'')
             = Some (JStr (str ''tests/sessions/1753927438951/script.spec.ts''))
         \<and> map_of ps (str ''tracePath'')
             = Some (JStr (str ''tests/sessions/1753927438951/trace.zip'')))"
  using session_paths [OF record_example] record_example
  by (simp add: record_in_def example_ids example_paths)

subsection \<open>The device check\<close>

lemma bind_io_InlE:
  assumes "bind_io m f w = (Inl e, w')"
  obtains "m w = (Inl e, w')" | y w1 where "m w = (Inr y, w1)" and "f y w1 = (Inl e, w')"
  using assms by (cases "m w") (auto simp: bind_io_def split: sum.splits)

lemma invalid_device_head: "hd (str ''Invalid device selection: '' @ d) = 73"
  by (simp add: str_Cons)

lemma other_heads:
  "hd (str ''PLAYWRIGHT_MODE=global but `playwright` not found. Install it or set PLAYWRIGHT_BIN.'') = 80"
  "hd (str ''PLAYWRIGHT_MODE=npx but `npx` not found on PATH.'') = 80"
  "hd (str ''Could not find Playwright (global) or npx. Install Node+npx or set env vars.'') = 67"
  "hd (str ''Command failed: '' @ x) = 67"
  "hd (str ''Ensure path exists, expected '' @ y) = 69"
  by (simp_all add: str_Cons)

text \<open>No error of the resolver, of \<open>run\<close> or of the file system is an \<open>Error\<close>
  whose message begins with the letter \<open>I\<close>.\<close>

lemma resolve_error_head:
  assumes "resolvePlaywright w = (Inl e, w1)"
  shows "\<forall>m. e = Error m \<longrightarrow> hd m \<noteq> 73"
proof -
  have "e = Error (str ''PLAYWRIGHT_MODE=global but `playwright` not found. Install it or set PLAYWRIGHT_BIN.'')
      \<or> e = Error (str ''PLAYWRIGHT_MODE=npx but `npx` not found on PATH.'')
      \<or> e = Error (str ''Could not find Playwright (global) or npx. Install Node+npx or set env vars.'')"
    using assms
    by (cases "env w (str ''PLAYWRIGHT_MODE'') = Some (str ''global'')";
        cases "env w (str ''PLAYWRIGHT_MODE'') = Some (str ''npx'')")
      (simp_all add: resolvePlaywright_def io_defs tryGlobal_eq tryNpx_eq split: if_splits)
  then show ?thesis
    using other_heads by auto
qed

lemma run_error_head:
  assumes "run c a w = (Inl e, w1)"
  shows "\<forall>m. e = Error m \<longrightarrow> hd m \<noteq> 73"
proof (cases "proc w (launched w) c a")
  case None
  then show ?thesis using assms by (auto simp: run_eq)
next
  case (Some code)
  then have "e = Error (str ''Command failed: '' @ c @ str '' '' @ join (str '' '') a)"
    using assms by (simp add: run_eq split: if_splits)
  then show ?thesis using other_heads(4) by simp
qed

lemma walk_error: "walk fs ds = Some e \<Longrightarrow> e \<noteq> Error m"
  by (induction ds) (auto split: option.splits node.splits)

lemma lookup_error: "lookup fs p = Inl e \<Longrightarrow> e \<noteq> Error m"
  by (auto simp: lookup_def dest: walk_error split: if_splits option.splits)

lemma mkdirs_error: "mkdirs fs ds = Inl e \<Longrightarrow> e \<noteq> Error m"
  by (induction ds arbitrary: fs) (auto split: option.splits node.splits if_splits)

lemma ensureDir_error:
  assumes "ensureDir p w = (Inl e, w1)"
  shows "\<forall>m. e = Error m \<longrightarrow> hd m \<noteq> 73"
  using assms other_heads(5)
  by (auto simp: ensureDir_eq expected_dir_def
      dest: lookup_error mkdirs_error split: if_splits sum.splits)

lemma writeTextFile_error:
  assumes "writeTextFile p t w = (Inl e, w1)"
  shows "\<forall>m. e = Error m \<longrightarrow> hd m \<noteq> 73"
  using assms
  by (auto simp: writeTextFile_def dest: walk_error split: if_splits option.splits node.splits)

lemma saveHistory_error:
  assumes "saveHistory es w = (Inl e, w1)"
  shows "\<forall>m. e = Error m \<longrightarrow> hd m \<noteq> 73"
  using assms unfolding saveHistory_def
  by (auto elim!: bind_io_InlE dest: ensureDir_error writeTextFile_error)

lemma loadHistory_error:
  assumes "loadHistory w = (Inl e, w1)"
  shows "\<forall>m. e = Error m \<longrightarrow> hd m \<noteq> 73"
  using assms
  by (auto simp: loadHistory_eq history_of_def split: if_splits option.splits node.splits)

lemma exists_error:
  assumes "exists p w = (Inl e, w1)"
  shows "\<forall>m. e = Error m \<longrightarrow> hd m \<noteq> 73"
  using assms
  by (auto simp: exists_eq dest: lookup_error split: if_splits sum.splits)

lemma recordNewTest_error_head:
  assumes "recordNewTest inp w = (Inl e, w')" and "isDeviceType (device_answer inp)"
  shows "\<forall>m. e = Error m \<longrightarrow> hd m \<noteq> 73"
  using assms unfolding recordNewTest_def Let_def
  by (auto simp: prompt_eqs return_def throw_def reads_def
      split: if_splits
      elim!: bind_io_InlE
      dest!: resolve_error_head run_error_head ensureDir_error writeTextFile_error
        saveHistory_error loadHistory_error exists_error)

lemma record_rejects:
  assumes "resolvePlaywright w = (Inr pw, w1)" and "\<not> isDeviceType (device_answer inp)"
  shows "recordNewTest inp w =
           (Inl (Error (str ''Invalid device selection: '' @ device_answer inp)),
            w1\<lparr>trace := trace w1 @ [Ask (str ''Enter target URL''),
                                     Ask (str ''Select device type'')]\<rparr>)"
  using assms by (simp add: recordNewTest_def bind_io_def prompt_eqs throw_def)

text \<open>
  Claim C6, as the code has it. The device check passes exactly \<open>pc\<close> and
  \<open>mobile\<close>: with one of them the flow never fails with the invalid-selection error.
  With any other value it fails with \<open>Invalid device selection: <value>\<close> right after
  the two prompts, before \<open>run\<close> has started any command: by then the trace holds
  nothing of this flow but the resolver's \<open>--version\<close> probes and the two prompts.
  (The probes are processes too, so a process has been started before the rejection.)
\<close>

theorem device_selection_checked:
  assumes "resolvePlaywright w = (Inr pw, w1)"
  shows "if device_answer inp = str ''pc'' \<or> device_answer inp = str ''mobile''
         then \<forall>d. fst (recordNewTest inp w)
                     \<noteq> Inl (Error (str ''Invalid device selection: '' @ d))
         else \<exists>ps. recordNewTest inp w =
                (Inl (Error (str ''Invalid device selection: '' @ device_answer inp)),
                 w\<lparr>trace := trace w @ map Probe ps
                              @ [Ask (str ''Enter target URL''),
                                 Ask (str ''Select device type'')]\<rparr>)"
proof (cases "device_answer inp = str ''pc'' \<or> device_answer inp = str ''mobile''")
  case True
  then have ok: "isDeviceType (device_answer inp)" by (simp add: isDeviceType_def)
  have "fst (recordNewTest inp w) \<noteq> Inl (Error (str ''Invalid device selection: '' @ d))" for d
  proof
    assume a: "fst (recordNewTest inp w) = Inl (Error (str ''Invalid device selection: '' @ d))"
    then have "recordNewTest inp w
                 = (Inl (Error (str ''Invalid device selection: '' @ d)), snd (recordNewTest inp w))"
      by (metis prod.collapse)
    from recordNewTest_error_head [OF this ok] show False
      by (simp add: invalid_device_head)
  qed
  then show ?thesis using True by simp
next
  case False
  then have no: "\<not> isDeviceType (device_answer inp)" by (simp add: isDeviceType_def)
  obtain ps where w1: "w1 = w\<lparr>trace := trace w @ map Probe ps\<rparr>"
    using resolve_trace [OF assms] by blast
  have "recordNewTest inp w =
          (Inl (Error (str ''Invalid device selection: '' @ device_answer inp)),
           w\<lparr>trace := trace w @ map Probe ps
                        @ [Ask (str ''Enter target URL''), Ask (str ''Select device type'')]\<rparr>)"
    using record_rejects [OF assms no] by (simp add: w1)
  then show ?thesis using False by auto
qed

lemma tablet_not_device: "str ''tablet'' \<noteq> str ''pc''" "str ''tablet'' \<noteq> str ''mobile''"
  by (simp_all add: str_Cons)

theorem device_selection_checked_witness:
  "resolvePlaywright w_fresh =
      (Inr \<lparr>mode = global, cmd = str ''playwright'', wrap = (\<lambda>a. a)\<rparr>,
       w_fresh\<lparr>trace := [Probe (str ''playwright'')]\<rparr>)
   \<and> (\<forall>d. fst (recordNewTest (record_in (str ''pc'')) w_fresh)
              \<noteq> Inl (Error (str ''Invalid device selection: '' @ d)))
   \<and> (\<exists>ps. recordNewTest (record_in (str ''tablet'')) w_fresh =
          (Inl (Error (str ''Invalid device selection: '' @ str ''tablet'')),
           w_fresh\<lparr>trace := map Probe ps @ [Ask (str ''Enter target URL''),
                                              Ask (str ''Select device type'')]\<rparr>))"
  using device_selection_checked [OF resolve_fresh, of "record_in (str ''pc'')"]
    device_selection_checked [OF resolve_fresh, of "record_in (str ''tablet'')"]
    resolve_fresh tablet_not_device
  by (simp add: record_in_def w_fresh_fields)

theorem device_rejected_after_probe:
  "recordNewTest (record_in (str ''tablet'')) w_fresh =
     (Inl (Error (str ''Invalid device selection: '' @ str ''tablet'')),
      w_fresh\<lparr>trace := [Probe (str ''playwright''), Ask (str ''Enter target URL''),
                         Ask (str ''Select device type'')]\<rparr>)
   \<and> launched w_fresh = 0
   \<and> launched (w_fresh\<lparr>trace := [Probe (str ''playwright''), Ask (str ''Enter target URL''),
                                   Ask (str ''Select device type'')]\<rparr>) = 1"
proof -
  have no: "\<not> isDeviceType (device_answer (record_in (str ''tablet'')))"
    using tablet_not_device by (simp add: isDeviceType_def record_in_def)
  show ?thesis
    using record_rejects [OF resolve_fresh no]
    by (simp add: record_in_def launched_def w_fresh_fields)
qed

section \<open>The replay flow\<close>

lemma Number_abc: "Number (str ''abc'') = NaN"
  by (simp add: Number_def trim_def is_str_ws_def non_decimal_def str_decimal_def
      split_decimal_def is_digit_def exponent_part_def str_Cons str_Nil)

lemma Number_1: "Number (str ''1'') = Fin 1"
  using binary64_of_int [of 1]
  by (simp add: Number_def trim_def is_str_ws_def non_decimal_def str_decimal_def
      split_decimal_def is_digit_def exponent_part_def decimal_value_def digits_val_def
      str_Cons str_Nil)

lemma print_entry_ok: "print_entry (HistoryEntry_obj e) w = (Inr (), w)"
  by (simp add: print_entry_def read_property_def HistoryEntry_obj_def in_template_def
      io_defs str_Cons str_Nil)

lemma forEach_entries: "forEach (map HistoryEntry_obj es) print_entry w = (Inr (), w)"
  by (induction es) (simp_all add: print_entry_ok io_defs)

lemma element_map: "element (map f xs) i = map_option f (element xs i)"
  by (cases i) (auto simp: element_def)

lemma read_entry:
  "read_property (Some (HistoryEntry_obj e)) (str ''tracePath'') w
     = (Inr (Some (JStr (tracePath e))), w)"
  "read_property (Some (HistoryEntry_obj e)) (str ''id'') w
     = (Inr (Some (JStr (entry_id e))), w)"
  by (simp_all add: read_property_def HistoryEntry_obj_def io_defs str_Cons str_Nil)

lemma read_undefined: "read_property None k w = (Inl TypeError, w)"
  by (simp add: read_property_def throw_def)

lemma push_jobs_eq:
  "\<exists>js. push_jobs k (run_start c a) js0 w
           = (Inr js, w\<lparr>trace := trace w @ replicate k (Spawn c a)\<rparr>)
       \<and> length js = length js0 + k"
proof (induction k arbitrary: js0 w)
  case 0
  show ?case by (simp add: return_def)
next
  case (Suc k)
  obtain j where j: "run_start c a w = (Inr j, w\<lparr>trace := trace w @ [Spawn c a]\<rparr>)"
    by (simp add: run_start_def Let_def)
  obtain js where js: "push_jobs k (run_start c a) (js0 @ [j]) (w\<lparr>trace := trace w @ [Spawn c a]\<rparr>)
      = (Inr js, w\<lparr>trace := trace w @ [Spawn c a]\<rparr>
                   \<lparr>trace := trace (w\<lparr>trace := trace w @ [Spawn c a]\<rparr>) @ replicate k (Spawn c a)\<rparr>)"
    and l: "length js = length (js0 @ [j]) + k"
    using Suc.IH [of "js0 @ [j]" "w\<lparr>trace := trace w @ [Spawn c a]\<rparr>"] by blast
  show ?case
    using j js l by (intro exI [of _ js]) (simp add: bind_io_def)
qed

lemma Promise_all_world:
  "snd (Promise_all js w) = w\<lparr>trace := trace w @ [Wait (length js)]\<rparr>"
  by (simp add: Promise_all_def)

text \<open>The replay flow on a history of entries, up to the prompt for the number of
  viewers.\<close>

lemma replayTest_eq:
  assumes "resolvePlaywright w = (Inr pw, w1)"
    and "loadHistory w = (Inr (map HistoryEntry_obj es), w)"
    and "es \<noteq> []"
  shows "replayTest inp w =
     (let w2 = w1\<lparr>trace := trace w1
                 @ [Ask (str ''Pick a session (1-'' @ decimal (length es) @ str '')'')]\<rparr>
      in case element es (minus_one (Math_max (Fin 1)
                (Math_min (Fin (of_nat (length es))) (Number (pick_answer inp))))) of
        None \<Rightarrow> (Inl TypeError, w2)
      | Some e \<Rightarrow>
          (case fst (exists (tracePath e) w) of
             Inl err \<Rightarrow> (Inl err, w2)
           | Inr present \<Rightarrow>
               if \<not> present then (Inr (), w2)
               else bind_io (NumberPrompt_prompt (str ''How many trace viewers to open?'') 1 1 10
                          (viewers_submitted inp))
                 (\<lambda>n. bind_io (push_jobs (nat n)
                                   (run_start (cmd pw) (wrap pw [str ''show-trace'', tracePath e])) [])
                          Promise_all) w2))"
proof -
  obtain ps where w1: "w1 = w\<lparr>trace := trace w @ map Probe ps\<rparr>"
    using resolve_trace [OF assms(1)] by blast
  have l: "loadHistory w1 = (Inr (map HistoryEntry_obj es), w1)"
    using assms(2) by (simp add: loadHistory_eq w1)
  have x: "exists p (w1\<lparr>trace := t\<rparr>) = (fst (exists p w), w1\<lparr>trace := t\<rparr>)" for p t
    by (simp add: exists_eq w1)
  show ?thesis
    unfolding replayTest_def Let_def
    using assms(3)
    by (cases "element es (minus_one (Math_max (Fin 1)
                (Math_min (Fin (of_nat (length es))) (Number (pick_answer inp)))))")
      (auto simp: bind_io_def assms(1) l forEach_entries prompt_eqs element_map read_entry
        read_undefined path_of_def x in_template_def return_def throw_def
        split: sum.splits)
qed

lemma NumberPrompt_eq:
  "NumberPrompt_prompt m d lo hi ns w =
     ((case find (\<lambda>n. lo \<le> n \<and> n \<le> hi) ns of None \<Rightarrow> Inl Unanswered | Some n \<Rightarrow> Inr n),
      w\<lparr>trace := trace w @ [AskNumber m d lo hi]\<rparr>)"
  by (simp add: NumberPrompt_prompt_def io_defs split: option.splits)

text \<open>The viewer-count prompt hands back nothing but a number from 1 to 10.\<close>

lemma viewers_bounded:
  "NumberPrompt_prompt m d 1 10 ns w = (Inr n, w1) \<Longrightarrow> 1 \<le> n \<and> n \<le> 10"
  by (auto simp: NumberPrompt_eq find_Some_iff split: option.splits)

text \<open>
  Claim C7. The replay flow asks for the viewer count with the bounds 1 and 10, and the
  prompt accepts no number outside them: whatever the user submits, the count \<open>n\<close>
  the flow goes on with is the first submitted number from 1 to 10, and when there is
  none no process is started. With \<open>n\<close> the flow starts exactly \<open>n\<close> processes,
  each the trace-viewer command \<open>show-trace\<close> on the chosen entry's trace path, and
  only then waits: the trace is the resolver's probes, the two prompts, \<open>n\<close>
  \<open>Spawn\<close> events and one joint \<open>Wait\<close> for all \<open>n\<close>.
\<close>

theorem replay_opens_viewers:
  assumes "resolvePlaywright w = (Inr pw, w1)"
    and "loadHistory w = (Inr (map HistoryEntry_obj es), w)"
    and "element es (minus_one (Math_max (Fin 1)
           (Math_min (Fin (of_nat (length es))) (Number (pick_answer inp))))) = Some e"
    and "exists (tracePath e) w = (Inr True, w)"
  shows "case find (\<lambda>n. 1 \<le> n \<and> n \<le> 10) (viewers_submitted inp) of
           None \<Rightarrow>
             \<exists>ps. replayTest inp w =
               (Inl Unanswered,
                w\<lparr>trace := trace w @ map Probe ps
                   @ [Ask (str ''Pick a session (1-'' @ decimal (length es) @ str '')''),
                      AskNumber (str ''How many trace viewers to open?'') 1 1 10]\<rparr>)
         | Some n \<Rightarrow>
             1 \<le> n \<and> n \<le> 10
             \<and> (\<exists>ps. snd (replayTest inp w) =
                   w\<lparr>trace := trace w @ map Probe ps
                      @ [Ask (str ''Pick a session (1-'' @ decimal (length es) @ str '')''),
                         AskNumber (str ''How many trace viewers to open?'') 1 1 10]
                      @ replicate (nat n)
                          (Spawn (cmd pw) (wrap pw [str ''show-trace'', tracePath e]))
                      @ [Wait (nat n)]\<rparr>)
             \<and> int (length (replicate (nat n)
                  (Spawn (cmd pw) (wrap pw [str ''show-trace'', tracePath e])))) = n"
proof -
  define view where "view = Spawn (cmd pw) (wrap pw [str ''show-trace'', tracePath e])"
  define pick where "pick = Ask (str ''Pick a session (1-'' @ decimal (length es) @ str '')'')"
  define ask where "ask = AskNumber (str ''How many trace viewers to open?'') 1 1 10"
  have ne: "es \<noteq> []"
    using assms(3) by (auto simp: element_def split: jsnum.splits if_splits)
  obtain ps where w1: "w1 = w\<lparr>trace := trace w @ map Probe ps\<rparr>"
    using resolve_trace [OF assms(1)] by blast
  define w2 where "w2 = w1\<lparr>trace := trace w1 @ [pick, ask]\<rparr>"
  have r: "replayTest inp w =
      (case find (\<lambda>n. 1 \<le> n \<and> n \<le> 10) (viewers_submitted inp) of
         None \<Rightarrow> (Inl Unanswered, w2)
       | Some n \<Rightarrow>
           bind_io (push_jobs (nat n)
                      (run_start (cmd pw) (wrap pw [str ''show-trace'', tracePath e])) [])
             Promise_all w2)"
    by (simp add: replayTest_eq [OF assms(1,2) ne] assms(3,4) Let_def bind_io_def NumberPrompt_eq
        w2_def pick_def ask_def split: option.splits)
  show ?thesis
  proof (cases "find (\<lambda>n. 1 \<le> n \<and> n \<le> 10) (viewers_submitted inp)")
    case None
    then have "replayTest inp w
        = (Inl Unanswered, w\<lparr>trace := trace w @ map Probe ps @ [pick, ask]\<rparr>)"
      by (simp add: r w2_def w1)
    then show ?thesis
      unfolding pick_def ask_def using None by auto
  next
    case (Some n)
    then have b: "1 \<le> n" "n \<le> 10"
      by (auto simp: find_Some_iff)
    obtain js where js: "push_jobs (nat n)
          (run_start (cmd pw) (wrap pw [str ''show-trace'', tracePath e])) [] w2
        = (Inr js, w2\<lparr>trace := trace w2 @ replicate (nat n) view\<rparr>)"
      and l: "length js = nat n"
      using push_jobs_eq [of "nat n" "cmd pw" "wrap pw [str ''show-trace'', tracePath e]" "[]" w2]
      by (auto simp: view_def)
    have "replayTest inp w = Promise_all js (w2\<lparr>trace := trace w2 @ replicate (nat n) view\<rparr>)"
      using js by (simp add: r Some bind_io_def)
    then have "snd (replayTest inp w) =
        w\<lparr>trace := trace w @ map Probe ps @ [pick, ask] @ replicate (nat n) view @ [Wait (nat n)]\<rparr>"
      by (simp add: Promise_all_world l w2_def w1)
    moreover have "int (length (replicate (nat n) view)) = n"
      using b by simp
    ultimately show ?thesis
      unfolding view_def pick_def ask_def using Some b by auto
  qed
qed

lemma pick_first:
  "element [session1] (minus_one (Math_max (Fin 1)
      (Math_min (Fin (of_nat (length [session1]))) (Number (str ''1''))))) = Some session1"
  using binary64_of_int [of 0]
  by (simp add: Number_1 Math_min_def Math_max_def num_less_def minus_one_def element_def)

lemma decimal_1: "decimal (Suc 0) = str ''1''"
  by (simp add: decimal_def digit_list.simps digit_char_def str_Cons str_Nil)

lemma trace_recorded: "exists (tracePath session1) w_recorded = (Inr True, w_recorded)"
  by (simp add: exists_eq lookup_def session1_def example_parents example_not_empty
      files_recorded_at parents_consts w_recorded_fields)

theorem replay_opens_viewers_witness:
  "resolvePlaywright w_recorded =
      (Inr \<lparr>mode = global, cmd = str ''playwright'', wrap = (\<lambda>a. a)\<rparr>,
       w_recorded\<lparr>trace := [Probe (str ''playwright'')]\<rparr>)
   \<and> loadHistory w_recorded = (Inr (map HistoryEntry_obj [session1]), w_recorded)
   \<and> exists (tracePath session1) w_recorded = (Inr True, w_recorded)
   \<and> find (\<lambda>n. 1 \<le> n \<and> n \<le> 10) [11, 0, 2] = Some (2::int)
   \<and> (\<exists>ps. snd (replayTest (replay_with (str ''1'') [11, 0, 2]) w_recorded) =
         w_recorded\<lparr>trace := map Probe ps
            @ [Ask (str ''Pick a session (1-'' @ str ''1'' @ str '')''),
               AskNumber (str ''How many trace viewers to open?'') 1 1 10,
               Spawn (str ''playwright'') [str ''show-trace'', tracePath session1],
               Spawn (str ''playwright'') [str ''show-trace'', tracePath session1],
               Wait 2]\<rparr>)
   \<and> find (\<lambda>n. 1 \<le> n \<and> n \<le> 10) [11, 0] = (None :: int option)
   \<and> (\<exists>ps. replayTest (replay_with (str ''1'') [11, 0]) w_recorded =
         (Inl Unanswered,
          w_recorded\<lparr>trace := map Probe ps
            @ [Ask (str ''Pick a session (1-'' @ str ''1'' @ str '')''),
               AskNumber (str ''How many trace viewers to open?'') 1 1 10]\<rparr>))"
proof -
  have l: "loadHistory w_recorded = (Inr (map HistoryEntry_obj [session1]), w_recorded)"
    using load_recorded by simp
  have p: "element [session1] (minus_one (Math_max (Fin 1)
      (Math_min (Fin (of_nat (length [session1])))
         (Number (pick_answer (replay_with (str ''1'') ns)))))) = Some session1" for ns
    using pick_first by (simp add: replay_with_def)
  have r: "replicate 2 x = [x, x]" for x :: event
    by (simp add: numeral_2_eq_2)
  show ?thesis
    using replay_opens_viewers [OF resolve_recorded l p trace_recorded, of "[11, 0, 2]"]
      replay_opens_viewers [OF resolve_recorded l p trace_recorded, of "[11, 0]"]
      resolve_recorded l trace_recorded
    by (simp add: replay_with_def w_recorded_fields decimal_1 r)
qed

text \<open>What the clamp does do: for an answer that denotes an integer \<open>k\<close> it picks
  the entry numbered \<open>k\<close>, moved into \<open>1 .. count\<close>.\<close>

lemma pick_integer_clamped:
  assumes "es \<noteq> []" and "length es \<le> 2 ^ 53"
  shows "element es (minus_one (Math_max (Fin 1)
           (Math_min (Fin (of_nat (length es))) (Fin (of_int k)))))
         = Some (es ! (nat (max 1 (min (int (length es)) k)) - 1))"
proof -
  define n where "n = int (length es)"
  have n: "1 \<le> n" using assms(1) by (cases es) (simp_all add: n_def)
  have n53: "n \<le> 2 ^ 53" using assms(2) by (simp add: n_def)
  define c where "c = max 1 (min n k)"
  have c: "1 \<le> c" "c \<le> n" using n by (simp_all add: c_def)
  have m: "Math_max (Fin 1) (Math_min (Fin (of_nat (length es))) (Fin (of_int k)))
             = Fin (of_int c)"
    by (auto simp: Math_min_def Math_max_def num_less_def c_def n_def max_def min_def)
  have "\<bar>c - 1\<bar> \<le> 2 ^ 53" using c n53 by simp
  then have b: "minus_one (Fin (of_int c)) = Fin (of_int (c - 1))"
    using binary64_of_int [of "c - 1"] by (simp add: minus_one_def)
  have "element es (Fin (of_int (c - 1))) = Some (es ! nat (c - 1))"
    unfolding element_def using c by (simp add: n_def)
  moreover have "nat (c - 1) = nat c - 1" by simp
  ultimately have "element es (minus_one (Fin (of_int c))) = Some (es ! (nat c - 1))"
    by (simp only: b)
  then show ?thesis
    unfolding m by (simp only: c_def n_def)
qed

text \<open>
  Claim C3 fails on the code for a selection that is not a number. With one recorded
  session and the answer \<open>abc\<close>, \<open>Number(pickStr)\<close> is \<open>NaN\<close>, which
  \<open>Math.min\<close> and \<open>Math.max\<close> hand on; \<open>entries[NaN]\<close> is \<open>undefined\<close>, and
  reading its \<open>tracePath\<close> raises a TypeError: the index is not clamped into
  \<open>[1, count]\<close> and the flow raises.
\<close>

theorem replay_pick_not_a_number:
  "Number (str ''abc'') = NaN
   \<and> Math_max (Fin 1) (Math_min (Fin 1) NaN) = NaN
   \<and> element [HistoryEntry_obj session1] (minus_one NaN) = None
   \<and> replayTest (replay_in (str ''abc'') 1) w_recorded =
       (Inl TypeError,
        w_recorded\<lparr>trace := [Probe (str ''playwright''),
                              Ask (str ''Pick a session (1-'' @ str ''1'' @ str '')'')]\<rparr>)"
proof -
  have l: "loadHistory w_recorded = (Inr (map HistoryEntry_obj [session1]), w_recorded)"
    using load_recorded by simp
  have e: "element [session1] (minus_one (Math_max (Fin 1)
      (Math_min (Fin (of_nat (length [session1])))
         (Number (pick_answer (replay_in (str ''abc'') 1)))))) = None"
    by (simp add: replay_in_def replay_with_def Number_abc Math_min_def Math_max_def
        minus_one_def element_def)
  have "replayTest (replay_in (str ''abc'') 1) w_recorded =
       (Inl TypeError,
        w_recorded\<lparr>trace := [Probe (str ''playwright''),
                              Ask (str ''Pick a session (1-'' @ str ''1'' @ str '')'')]\<rparr>)"
    using replayTest_eq [OF resolve_recorded l, of "replay_in (str ''abc'') 1"] e
    by (simp add: decimal_1 Let_def)
  then show ?thesis
    by (simp add: Number_abc Math_min_def Math_max_def minus_one_def element_def)
qed

end
